theory Spec2Isabelle
  imports Complex_Main
begin

section \<open>Python values and exceptions\<close>

text \<open>
  The program of \<^verbatim>\<open>src/simple_prediction/forecast.py\<close> works on the value that
  \<^verbatim>\<open>response.json()\<close> returns: \<^verbatim>\<open>None\<close>, a bool, an int, a float, a str, a list or a
  dict with string keys. The type \<open>'f\<close> stands for Python's float: nothing here depends
  on how a float is represented, and the operations on floats that the interpreter
  performs are fields of the platform record below. A dict is an association list read
  with \<open>map_of\<close>. A str is the list of its UTF-8 bytes.
\<close>

datatype 'f pyval =
    PNone
  | PBool bool
  | PInt int
  | PFloat 'f
  | PStr string
  | PList "'f pyval list"
  | PDict "(string \<times> 'f pyval) list"

text \<open>
  The exceptions the program can raise. \<open>RequestException\<close> is the failure of the
  network call, \<open>JSONDecodeError\<close> the failure of \<^verbatim>\<open>response.json()\<close> on a body that is
  not JSON; the others are Python's built-in classes. \<open>OSError\<close> is here the failure of
  the C library's \<^verbatim>\<open>localtime\<close>.
\<close>

datatype error =
    AttributeError
  | TypeError
  | ValueError
  | OverflowError
  | KeyError
  | IndexError
  | OSError
  | RequestException
  | JSONDecodeError

text \<open>Python's class \<^verbatim>\<open>LookupError\<close> has the subclasses \<^verbatim>\<open>KeyError\<close> and \<^verbatim>\<open>IndexError\<close>.\<close>

definition is_LookupError :: "error \<Rightarrow> bool" where
  "is_LookupError e = (e = KeyError \<or> e = IndexError)"

definition is_TransportError :: "error \<Rightarrow> bool" where
  "is_TransportError e = (e = RequestException \<or> e = JSONDecodeError)"

text \<open>
  A call \<^verbatim>\<open>requests.get(url, params=params)\<close>: the URL as the program wrote it and the
  parameter dict in insertion order (empty when the call passes none).
\<close>

datatype request = Get string "(string \<times> string) list"

text \<open>
  What the program takes from outside itself: the network with the JSON decoder
  (\<open>http_get\<close>: the decoded body, or the exception raised), the built-ins \<^verbatim>\<open>float\<close>,
  \<^verbatim>\<open>int\<close> and \<^verbatim>\<open>str\<close> where they depend on the float representation or parse text, the
  local time zone (\<open>utcoffset t\<close>: seconds east of UTC at the instant \<open>t\<close>), the
  whole seconds that \<^verbatim>\<open>datetime.fromtimestamp\<close> reads off a float, and how the C
  library's \<^verbatim>\<open>strftime\<close> writes the year of \<^verbatim>\<open>%Y\<close> (\<open>pads_year\<close>: with leading zeros up
  to four digits, or, as glibc does, without them). \<open>int_of_float\<close> and
  \<open>seconds_of_float\<close> have no value on a NaN (a \<^verbatim>\<open>ValueError\<close>) and on a float that is
  infinite or too large (an \<^verbatim>\<open>OverflowError\<close>).
\<close>

record 'f platform =
  http_get :: "request \<Rightarrow> error + 'f pyval"
  float_of_int :: "int \<Rightarrow> 'f option"
  float_of_str :: "string \<Rightarrow> 'f option"
  is_nan :: "'f \<Rightarrow> bool"
  int_of_float :: "'f \<Rightarrow> int option"
  int_of_str :: "string \<Rightarrow> int option"
  str_of :: "'f pyval \<Rightarrow> string"
  utcoffset :: "int \<Rightarrow> int"
  seconds_of_float :: "'f \<Rightarrow> int option"
  pads_year :: bool

subsection \<open>Attribute access, subscripts and coercions\<close>

text \<open>
  \<^verbatim>\<open>v.get(k)\<close>: only a dict has the method; on a dict a missing key gives \<^verbatim>\<open>None\<close>.
\<close>

fun py_get :: "'f pyval \<Rightarrow> string \<Rightarrow> error + 'f pyval" where
  "py_get (PDict kvs) k = Inr (case map_of kvs k of None \<Rightarrow> PNone | Some v \<Rightarrow> v)"
| "py_get v k = Inl AttributeError"

text \<open>
  \<^verbatim>\<open>v[k]\<close> with a string key: a dict raises \<^verbatim>\<open>KeyError\<close> on a missing key; a list or a
  str takes integer indices only, and no other value has subscripts.
\<close>

fun py_getitem :: "'f pyval \<Rightarrow> string \<Rightarrow> error + 'f pyval" where
  "py_getitem (PDict kvs) k = (case map_of kvs k of None \<Rightarrow> Inl KeyError | Some v \<Rightarrow> Inr v)"
| "py_getitem v k = Inl TypeError"

text \<open>\<^verbatim>\<open>float(v)\<close> and \<^verbatim>\<open>int(v)\<close>. A bool is an int in Python.\<close>

fun py_float :: "'f platform \<Rightarrow> 'f pyval \<Rightarrow> error + 'f" where
  "py_float env (PFloat x) = Inr x"
| "py_float env (PInt n) =
     (case float_of_int env n of None \<Rightarrow> Inl OverflowError | Some x \<Rightarrow> Inr x)"
| "py_float env (PBool b) =
     (case float_of_int env (if b then 1 else 0) of None \<Rightarrow> Inl OverflowError | Some x \<Rightarrow> Inr x)"
| "py_float env (PStr s) =
     (case float_of_str env s of None \<Rightarrow> Inl ValueError | Some x \<Rightarrow> Inr x)"
| "py_float env v = Inl TypeError"

fun py_int :: "'f platform \<Rightarrow> 'f pyval \<Rightarrow> error + int" where
  "py_int env (PInt n) = Inr n"
| "py_int env (PBool b) = Inr (if b then 1 else 0)"
| "py_int env (PFloat x) =
     (case int_of_float env x of
        None \<Rightarrow> Inl (if is_nan env x then ValueError else OverflowError)
      | Some n \<Rightarrow> Inr n)"
| "py_int env (PStr s) =
     (case int_of_str env s of None \<Rightarrow> Inl ValueError | Some n \<Rightarrow> Inr n)"
| "py_int env v = Inl TypeError"

section \<open>The current-weather client\<close>

text \<open>
  An object of class \<^verbatim>\<open>WeatherAPI\<close> (or of its subclass) has the two fields that
  \<^verbatim>\<open>__init__\<close> sets. The key comes from the module \<^verbatim>\<open>config\<close>, which is not part of the
  sources, so the constructor takes it as an argument.
\<close>

record WeatherAPI =
  url :: string
  api_key :: string

definition WeatherAPI_init :: "string \<Rightarrow> WeatherAPI" where
  "WeatherAPI_init API_KEY =
     \<lparr>url = ''https://api.openweathermap.org/data/2.5/weather'', api_key = API_KEY\<rparr>"

definition sending_request :: "'f platform \<Rightarrow> WeatherAPI \<Rightarrow> string \<Rightarrow> error + 'f pyval" where
  "sending_request env self city =
     http_get env (Get (url self) [(''appid'', api_key self), (''q'', city), (''units'', ''metric'')])"

definition processing_response ::
  "'f pyval \<Rightarrow> error + ('f pyval \<times> 'f pyval \<times> 'f pyval)" where
  "processing_response data =
     (case py_get data ''main'' of Inl e \<Rightarrow> Inl e | Inr main1 \<Rightarrow>
     (case py_get main1 ''temp'' of Inl e \<Rightarrow> Inl e | Inr temp_c \<Rightarrow>
     (case py_get data ''main'' of Inl e \<Rightarrow> Inl e | Inr main2 \<Rightarrow>
     (case py_get main2 ''humidity'' of Inl e \<Rightarrow> Inl e | Inr humidity \<Rightarrow>
     (case py_get data ''wind'' of Inl e \<Rightarrow> Inl e | Inr wind \<Rightarrow>
     (case py_get wind ''speed'' of Inl e \<Rightarrow> Inl e | Inr wind_mps \<Rightarrow>
        Inr (temp_c, humidity, wind_mps)))))))"

text \<open>
  The dict display of \<^verbatim>\<open>_get_weather\<close> evaluates its three values from left to right,
  so the first coercion that fails decides the exception.
\<close>

definition get_weather :: "'f platform \<Rightarrow> WeatherAPI \<Rightarrow> string \<Rightarrow> error + 'f pyval" where
  "get_weather env self city =
     (case sending_request env self city of Inl e \<Rightarrow> Inl e | Inr data \<Rightarrow>
     (case processing_response data of Inl e \<Rightarrow> Inl e | Inr (temp_c, humidity, wind_mps) \<Rightarrow>
     (case py_float env temp_c of Inl e \<Rightarrow> Inl e | Inr t \<Rightarrow>
     (case py_int env humidity of Inl e \<Rightarrow> Inl e | Inr h \<Rightarrow>
     (case py_float env wind_mps of Inl e \<Rightarrow> Inl e | Inr w \<Rightarrow>
        Inr (PDict [(''temperature'', PFloat t), (''humidity'', PInt h),
                    (''wind_speed'', PFloat w)]))))))"

text \<open>
  \<^verbatim>\<open>show_weather\<close> prints one line. Standard output is the text written so far; the
  call returns the text afterwards with its own outcome. The pieces of the f-string are
  the UTF-8 bytes of the Russian text of the source; \<open>str_of\<close> is what the f-string does
  to a value.
\<close>

definition text_temperature :: string where
  "text_temperature =
     [CHR 0xD0, CHR 0xA2, CHR 0xD0, CHR 0xB5, CHR 0xD0, CHR 0xBC, CHR 0xD0, CHR 0xBF, CHR 0xD0,
      CHR 0xB5, CHR 0xD1, CHR 0x80, CHR 0xD0, CHR 0xB0, CHR 0xD1, CHR 0x82, CHR 0xD1, CHR 0x83,
      CHR 0xD1, CHR 0x80, CHR 0xD0, CHR 0xB0, CHR '' '', CHR 0xD0, CHR 0xB2, CHR '' '']"

definition text_humidity :: string where
  "text_humidity =
     [CHR ''>'', CHR 0xC2, CHR 0xB0, CHR ''C'', CHR '','', CHR '' '', CHR 0xD0, CHR 0xB2, CHR 0xD0,
      CHR 0xBB, CHR 0xD0, CHR 0xB0, CHR 0xD0, CHR 0xB6, CHR 0xD0, CHR 0xBD, CHR 0xD0, CHR 0xBE,
      CHR 0xD1, CHR 0x81, CHR 0xD1, CHR 0x82, CHR 0xD1, CHR 0x8C, CHR '':'', CHR '' '']"

definition text_wind :: string where
  "text_wind =
     [CHR ''>'', CHR ''%'', CHR '','', CHR '' '', CHR 0xD1, CHR 0x81, CHR 0xD0, CHR 0xBA, CHR 0xD0,
      CHR 0xBE, CHR 0xD1, CHR 0x80, CHR 0xD0, CHR 0xBE, CHR 0xD1, CHR 0x81, CHR 0xD1, CHR 0x82,
      CHR 0xD1, CHR 0x8C, CHR '' '', CHR 0xD0, CHR 0xB2, CHR 0xD0, CHR 0xB5, CHR 0xD1, CHR 0x82,
      CHR 0xD1, CHR 0x80, CHR 0xD0, CHR 0xB0, CHR '':'', CHR '' '']"

definition text_unit :: string where
  "text_unit = [CHR ''>'', CHR '' '', CHR 0xD0, CHR 0xBC, CHR ''/'', CHR 0xD1, CHR 0x81, CHR ''.'']"

definition show_weather ::
  "'f platform \<Rightarrow> WeatherAPI \<Rightarrow> string \<Rightarrow> string \<Rightarrow> string \<times> (error + unit)" where
  "show_weather env self city stdout =
     (case get_weather env self city of Inl e \<Rightarrow> (stdout, Inl e) | Inr weather_data \<Rightarrow>
     (case py_get weather_data ''temperature'' of Inl e \<Rightarrow> (stdout, Inl e) | Inr t \<Rightarrow>
     (case py_get weather_data ''humidity'' of Inl e \<Rightarrow> (stdout, Inl e) | Inr h \<Rightarrow>
     (case py_get weather_data ''wind_speed'' of Inl e \<Rightarrow> (stdout, Inl e) | Inr w \<Rightarrow>
        (stdout @ text_temperature @ city @ '': '' @ str_of env t @ text_humidity
           @ str_of env h @ text_wind @ str_of env w @ text_unit @ [CHR 0x0A],
         Inr ())))))"

section \<open>Calendar dates\<close>

text \<open>
  \<^verbatim>\<open>datetime.fromtimestamp(t)\<close> without a time zone is the local date and time of the
  instant \<open>t\<close>, in the proleptic Gregorian calendar, and the program keeps its date
  only. The module \<^verbatim>\<open>datetime\<close> is the standard library's. Its dates are modelled by the
  day count (the ordinal: day 1 is 0001-01-01) and the library's division scheme over the
  cycles of 400, 100 and 4 years that turns an ordinal into year, month and day.
\<close>

definition is_leap :: "int \<Rightarrow> bool" where
  "is_leap y = (y mod 4 = 0 \<and> (y mod 100 \<noteq> 0 \<or> y mod 400 = 0))"

definition days_in_month :: "int \<Rightarrow> int \<Rightarrow> int" where
  "days_in_month y m =
     (if m = 2 then (if is_leap y then 29 else 28)
      else if m = 4 \<or> m = 6 \<or> m = 9 \<or> m = 11 then 30 else 31)"

definition days_before_year :: "int \<Rightarrow> int" where
  "days_before_year y = 365 * (y - 1) + (y - 1) div 4 - (y - 1) div 100 + (y - 1) div 400"

definition days_before_month :: "int \<Rightarrow> int \<Rightarrow> int" where
  "days_before_month y m = sum_list (map (days_in_month y) [1..m - 1])"

definition valid_date :: "int \<times> int \<times> int \<Rightarrow> bool" where
  "valid_date ymd = (case ymd of (y, m, d) \<Rightarrow>
     1 \<le> m \<and> m \<le> 12 \<and> 1 \<le> d \<and> d \<le> days_in_month y m)"

text \<open>The ordinal of a date: the days of the years and months before it, and its day.\<close>

definition ymd2ord :: "int \<times> int \<times> int \<Rightarrow> int" where
  "ymd2ord ymd = (case ymd of (y, m, d) \<Rightarrow> days_before_year y + days_before_month y m + d)"

definition DAYS_IN_MONTH :: "int list" where
  "DAYS_IN_MONTH = [- 1, 31, 28, 31, 30, 31, 30, 31, 31, 30, 31, 30, 31]"

definition DAYS_BEFORE_MONTH :: "int list" where
  "DAYS_BEFORE_MONTH = [- 1, 0, 31, 59, 90, 120, 151, 181, 212, 243, 273, 304, 334]"

text \<open>
  Month and day from the day of the year \<open>n\<close> (from 0): the estimate \<open>(n + 50) div 32\<close>
  is the month or one more than it.
\<close>

definition month_day :: "bool \<Rightarrow> int \<Rightarrow> int \<times> int" where
  "month_day leapyear n =
     (let month = (n + 50) div 32;
          preceding = DAYS_BEFORE_MONTH ! nat month + (if 2 < month \<and> leapyear then 1 else 0)
      in if n < preceding
         then (month - 1,
               n - (preceding - (DAYS_IN_MONTH ! nat (month - 1)
                                  + (if month - 1 = 2 \<and> leapyear then 1 else 0))) + 1)
         else (month, n - preceding + 1))"

definition ord2ymd :: "int \<Rightarrow> int \<times> int \<times> int" where
  "ord2ymd ordinal =
     (let n0 = ordinal - 1;
          n400 = n0 div 146097; r400 = n0 mod 146097;
          n100 = r400 div 36524; r100 = r400 mod 36524;
          n4 = r100 div 1461; r4 = r100 mod 1461;
          n1 = r4 div 365; n = r4 mod 365;
          year = n400 * 400 + 1 + n100 * 100 + n4 * 4 + n1
      in if n1 = 4 \<or> n100 = 4 then (year - 1, 12, 31)
         else (let leapyear = (n1 = 3 \<and> (n4 \<noteq> 24 \<or> n100 = 3));
                   md = month_day leapyear n
               in (year, fst md, snd md)))"

text \<open>
  The local date of an instant given in whole seconds since 1970-01-01 UTC, whose
  ordinal is 719163, on a platform with a 64-bit \<^verbatim>\<open>time_t\<close>, a 32-bit \<^verbatim>\<open>int\<close> and the
  \<^verbatim>\<open>localtime\<close> of POSIX (no leap seconds). \<open>local_time env u\<close> is the library's reading of
  the local time at the instant \<open>u\<close>: \<^verbatim>\<open>localtime\<close> fails with \<^verbatim>\<open>OSError\<close> when the year
  less 1900 does not fit the field \<^verbatim>\<open>tm_year\<close> of \<^verbatim>\<open>struct tm\<close>, and the library refuses a
  year outside 1..9999 with \<^verbatim>\<open>ValueError\<close>; the value is the local time in seconds (the
  library counts them from 0001-01-01, and uses their differences only).
\<close>

definition local_time :: "'f platform \<Rightarrow> int \<Rightarrow> error + int" where
  "local_time env u =
     (let seconds = u + utcoffset env u;
          year = fst (ord2ymd (seconds div 86400 + 719163))
      in if year - 1900 < - (2 ^ 31) \<or> 2 ^ 31 \<le> year - 1900 then Inl OSError
         else if year < 1 \<or> 9999 < year then Inl ValueError
         else Inr seconds)"

text \<open>
  \<^verbatim>\<open>datetime.fromtimestamp(t)\<close> on an integer: an instant that does not fit \<^verbatim>\<open>time_t\<close> is
  an \<^verbatim>\<open>OverflowError\<close>. The library then reads the local time at \<open>t\<close> and, to find out
  whether that local time occurs twice, at the instant 24 hours before; when the time
  zone moved its clock back in between (\<open>transition\<close> is negative), it reads a third
  instant. Each reading can raise. So an instant of the local day 0001-01-01 is refused:
  24 hours before it the year is 0.
\<close>

definition local_date :: "'f platform \<Rightarrow> int \<Rightarrow> error + (int \<times> int \<times> int)" where
  "local_date env t =
     (if t < - (2 ^ 63) \<or> 2 ^ 63 \<le> t then Inl OverflowError
      else (case local_time env t of Inl e \<Rightarrow> Inl e | Inr result_seconds \<Rightarrow>
           (case local_time env (t - 86400) of Inl e \<Rightarrow> Inl e | Inr probe_seconds \<Rightarrow>
           (let transition = result_seconds - probe_seconds - 86400
            in (case (if transition < 0 then local_time env (t + transition) else Inr probe_seconds) of
                  Inl e \<Rightarrow> Inl e
                | Inr probe \<Rightarrow> Inr (ord2ymd (result_seconds div 86400 + 719163)))))))"

fun fromtimestamp :: "'f platform \<Rightarrow> 'f pyval \<Rightarrow> error + (int \<times> int \<times> int)" where
  "fromtimestamp env (PInt t) = local_date env t"
| "fromtimestamp env (PBool b) = local_date env (if b then 1 else 0)"
| "fromtimestamp env (PFloat x) =
     (case seconds_of_float env x of
        None \<Rightarrow> Inl (if is_nan env x then ValueError else OverflowError)
      | Some t \<Rightarrow> local_date env t)"
| "fromtimestamp env v = Inl TypeError"

text \<open>
  \<^verbatim>\<open>strftime("%Y-%m-%d")\<close> on a date, whose year is one of 1..9999: month and day in two
  digits, and the year as the C library writes it. Where it pads, the year has four
  digits; glibc writes a year below 1000 without leading zeros.
\<close>

definition digit :: "int \<Rightarrow> char" where
  "digit n = ''0123456789'' ! nat n"

definition is_digit :: "char \<Rightarrow> bool" where
  "is_digit c = (c \<in> set ''0123456789'')"

definition year_text :: "'f platform \<Rightarrow> int \<Rightarrow> string" where
  "year_text env y =
     (if pads_year env \<or> 1000 \<le> y
      then [digit (y div 1000), digit (y div 100 mod 10), digit (y div 10 mod 10), digit (y mod 10)]
      else if 100 \<le> y then [digit (y div 100), digit (y div 10 mod 10), digit (y mod 10)]
      else if 10 \<le> y then [digit (y div 10), digit (y mod 10)]
      else [digit y])"

definition strftime_Ymd :: "'f platform \<Rightarrow> int \<times> int \<times> int \<Rightarrow> string" where
  "strftime_Ymd env ymd = (case ymd of (y, m, d) \<Rightarrow>
     year_text env y @
     [CHR ''-'', digit (m div 10), digit (m mod 10),
      CHR ''-'', digit (d div 10), digit (d mod 10)])"

text \<open>The shape \<^verbatim>\<open>YYYY-MM-DD\<close>: ten characters, digits but for the two hyphens.\<close>

definition is_iso_date :: "string \<Rightarrow> bool" where
  "is_iso_date s = (case s of
       [y1, y2, y3, y4, h1, m1, m2, h2, d1, d2] \<Rightarrow>
         is_digit y1 \<and> is_digit y2 \<and> is_digit y3 \<and> is_digit y4 \<and> h1 = CHR ''-'' \<and>
         is_digit m1 \<and> is_digit m2 \<and> h2 = CHR ''-'' \<and> is_digit d1 \<and> is_digit d2
     | _ \<Rightarrow> False)"

text \<open>
  Reading a date string back, whatever the number of digits of its year: the three
  numbers between the hyphens. And the instants of a day: the day with the ordinal \<open>n\<close>
  holds the local seconds from \<open>86400 * (n - 719163)\<close> up to the next multiple of 86400.
\<close>

definition digit_value :: "char \<Rightarrow> int" where
  "digit_value c = int (of_char c) - 48"

definition number :: "string \<Rightarrow> int" where
  "number s = foldl (\<lambda>n c. 10 * n + digit_value c) 0 s"

definition parse_date :: "string \<Rightarrow> int \<times> int \<times> int" where
  "parse_date s =
     (let year = takeWhile (\<lambda>c. c \<noteq> CHR ''-'') s;
          rest = drop 1 (dropWhile (\<lambda>c. c \<noteq> CHR ''-'') s);
          month = takeWhile (\<lambda>c. c \<noteq> CHR ''-'') rest;
          day = drop 1 (dropWhile (\<lambda>c. c \<noteq> CHR ''-'') rest)
      in (number year, number month, number day))"

definition day_contains :: "int \<times> int \<times> int \<Rightarrow> int \<Rightarrow> bool" where
  "day_contains ymd seconds =
     (86400 * (ymd2ord ymd - 719163) \<le> seconds \<and>
      seconds < 86400 * (ymd2ord ymd - 719163) + 86400)"

section \<open>The forecast client\<close>

text \<open>
  \<^verbatim>\<open>WeatherForecast.__init__\<close> runs the parent's constructor and then overwrites the
  endpoint.
\<close>

definition WeatherForecast_init :: "string \<Rightarrow> WeatherAPI" where
  "WeatherForecast_init API_KEY =
     (WeatherAPI_init API_KEY)\<lparr>url := ''https://api.openweathermap.org/data/2.5/forecast''\<rparr>"

text \<open>The f-string of \<^verbatim>\<open>_send_request\<close>: city and key are put into the URL as they are.\<close>

definition send_request_url :: "WeatherAPI \<Rightarrow> string \<Rightarrow> string" where
  "send_request_url self city =
     url self @ ''?q='' @ city @ ''&appid='' @ api_key self @ ''&units=metric''"

definition send_request :: "'f platform \<Rightarrow> WeatherAPI \<Rightarrow> string \<Rightarrow> error + 'f pyval" where
  "send_request env self city = http_get env (Get (send_request_url self city) [])"

text \<open>
  \<^verbatim>\<open>v[:5]\<close>: a list and a str can be sliced; a dict takes the slice as a key, which
  interpreters before 3.12 refuse as unhashable (\<^verbatim>\<open>TypeError\<close>; from 3.12 on the slice is
  looked up and missing, a \<^verbatim>\<open>KeyError\<close>); no other value has subscripts. The items a
  \<^verbatim>\<open>for\<close> loop visits: the elements of a list, the characters of a str, the keys of a
  dict. A str is sliced and visited by code points, not bytes; the loop body fails on the
  first character either way, so the bytes stand for them here.
\<close>

fun py_slice5 :: "'f pyval \<Rightarrow> error + 'f pyval" where
  "py_slice5 (PList xs) = Inr (PList (take 5 xs))"
| "py_slice5 (PStr s) = Inr (PStr (take 5 s))"
| "py_slice5 v = Inl TypeError"

fun py_iter :: "'f pyval \<Rightarrow> error + 'f pyval list" where
  "py_iter (PList xs) = Inr xs"
| "py_iter (PStr s) = Inr (map (\<lambda>c. PStr [c]) s)"
| "py_iter (PDict kvs) = Inr (map (\<lambda>kv. PStr (fst kv)) kvs)"
| "py_iter v = Inl TypeError"

text \<open>One pass of the loop body of \<^verbatim>\<open>get_forecast\<close>: the dict it appends.\<close>

definition forecast_entry :: "'f platform \<Rightarrow> 'f pyval \<Rightarrow> error + 'f pyval" where
  "forecast_entry env forecast =
     (case py_getitem forecast ''dt'' of Inl e \<Rightarrow> Inl e | Inr dt \<Rightarrow>
     (case fromtimestamp env dt of Inl e \<Rightarrow> Inl e | Inr date \<Rightarrow>
     (case py_getitem forecast ''main'' of Inl e \<Rightarrow> Inl e | Inr main1 \<Rightarrow>
     (case py_getitem main1 ''temp'' of Inl e \<Rightarrow> Inl e | Inr temp \<Rightarrow>
     (case py_getitem forecast ''main'' of Inl e \<Rightarrow> Inl e | Inr main2 \<Rightarrow>
     (case py_getitem main2 ''humidity'' of Inl e \<Rightarrow> Inl e | Inr humidity \<Rightarrow>
     (case py_getitem forecast ''wind'' of Inl e \<Rightarrow> Inl e | Inr wind \<Rightarrow>
     (case py_getitem wind ''speed'' of Inl e \<Rightarrow> Inl e | Inr wind_speed \<Rightarrow>
        Inr (PDict [(''date'', PStr (strftime_Ymd env date)), (''temp'', temp),
                    (''humidity'', humidity), (''wind_speed'', wind_speed)])))))))))"

text \<open>The loop: \<open>result\<close> is the list built so far, and an exception ends it.\<close>

fun forecast_loop :: "'f platform \<Rightarrow> 'f pyval list \<Rightarrow> 'f pyval list \<Rightarrow> error + 'f pyval list" where
  "forecast_loop env result [] = Inr result"
| "forecast_loop env result (forecast # forecasts) =
     (case forecast_entry env forecast of
        Inl e \<Rightarrow> Inl e
      | Inr entry \<Rightarrow> forecast_loop env (result @ [entry]) forecasts)"

definition get_forecast :: "'f platform \<Rightarrow> WeatherAPI \<Rightarrow> string \<Rightarrow> error + 'f pyval list" where
  "get_forecast env self city =
     (case send_request env self city of Inl e \<Rightarrow> Inl e | Inr data \<Rightarrow>
     (case py_getitem data ''list'' of Inl e \<Rightarrow> Inl e | Inr lst \<Rightarrow>
     (case py_slice5 lst of Inl e \<Rightarrow> Inl e | Inr sliced \<Rightarrow>
     (case py_iter sliced of Inl e \<Rightarrow> Inl e | Inr forecasts \<Rightarrow>
        forecast_loop env [] forecasts))))"

section \<open>What a request asks for\<close>

text \<open>
  The library \<^verbatim>\<open>requests\<close> escapes the entries of \<open>params\<close> and appends them to the
  query of the URL; the text of the URL itself is sent as the program wrote it. The server
  reads the query between the first \<^verbatim>\<open>?\<close> and the first \<^verbatim>\<open>#\<close>, cuts it at every \<^verbatim>\<open>&\<close>,
  cuts each piece at its first \<^verbatim>\<open>=\<close>, and undoes the escapes (\<^verbatim>\<open>+\<close> is a space, \<^verbatim>\<open>%XY\<close> the
  byte with the hexadecimal digits \<^verbatim>\<open>XY\<close>). \<open>request_params\<close> is the list of the
  parameters that the server reads off a request.
\<close>

definition url_query :: "string \<Rightarrow> string" where
  "url_query u = drop 1 (dropWhile (\<lambda>c. c \<noteq> CHR ''?'') (takeWhile (\<lambda>c. c \<noteq> CHR ''#'') u))"

fun split_on :: "char \<Rightarrow> string \<Rightarrow> string list" where
  "split_on sep [] = [[]]"
| "split_on sep (c # cs) =
     (if c = sep then [] # split_on sep cs
      else (case split_on sep cs of [] \<Rightarrow> [[c]] | p # ps \<Rightarrow> (c # p) # ps))"

definition hexval :: "char \<Rightarrow> nat option" where
  "hexval c =
     (if c \<in> set ''0123456789'' then Some (of_char c - 48)
      else if c \<in> set ''abcdef'' then Some (of_char c - 87)
      else if c \<in> set ''ABCDEF'' then Some (of_char c - 55)
      else None)"

fun unquote_plus :: "string \<Rightarrow> string" where
  "unquote_plus [] = []"
| "unquote_plus (c # cs) =
     (if c = CHR ''+'' then CHR '' '' # unquote_plus cs
      else if c = CHR ''%'' then
        (case cs of
           h1 # h2 # rest \<Rightarrow>
             (case (hexval h1, hexval h2) of
                (Some a, Some b) \<Rightarrow> char_of (16 * a + b) # unquote_plus rest
              | _ \<Rightarrow> c # unquote_plus cs)
         | _ \<Rightarrow> c # unquote_plus cs)
      else c # unquote_plus cs)"

definition parse_pair :: "string \<Rightarrow> string \<times> string" where
  "parse_pair s =
     (unquote_plus (takeWhile (\<lambda>c. c \<noteq> CHR ''='') s),
      unquote_plus (drop 1 (dropWhile (\<lambda>c. c \<noteq> CHR ''='') s)))"

definition parse_qsl :: "string \<Rightarrow> (string \<times> string) list" where
  "parse_qsl q = map parse_pair (filter (\<lambda>s. s \<noteq> []) (split_on CHR ''&'' q))"

fun request_params :: "request \<Rightarrow> (string \<times> string) list" where
  "request_params (Get u ps) = parse_qsl (url_query u) @ ps"

section \<open>Fields of a response, and calls one after the other\<close>

text \<open>
  \<open>is_float\<close> and \<open>is_int\<close> tell a Python float and an int (not a bool) from the other
  values. \<open>field v k\<close> is the entry \<open>k\<close> of a JSON object, \<open>field2 v k1 k2\<close> the entry \<open>k2\<close>
  of its entry \<open>k1\<close>; \<open>None\<close> says that it is absent.
\<close>

definition is_float :: "'f pyval \<Rightarrow> bool" where
  "is_float v = (case v of PFloat x \<Rightarrow> True | _ \<Rightarrow> False)"

definition is_int :: "'f pyval \<Rightarrow> bool" where
  "is_int v = (case v of PInt n \<Rightarrow> True | _ \<Rightarrow> False)"

definition field :: "'f pyval \<Rightarrow> string \<Rightarrow> 'f pyval option" where
  "field v k = (case v of PDict kvs \<Rightarrow> map_of kvs k | _ \<Rightarrow> None)"

definition field2 :: "'f pyval \<Rightarrow> string \<Rightarrow> string \<Rightarrow> 'f pyval option" where
  "field2 v k1 k2 = (case field v k1 of None \<Rightarrow> None | Some u \<Rightarrow> field u k2)"

text \<open>
  An entry of the forecast list lacks a field when \<open>dt\<close>, \<open>main\<close>, \<open>main.temp\<close>,
  \<open>main.humidity\<close>, \<open>wind\<close> or \<open>wind.speed\<close> is absent. It is sound where present when
  the \<open>dt\<close> it has is an instant that \<^verbatim>\<open>datetime.fromtimestamp\<close> accepts and the \<open>main\<close>
  and \<open>wind\<close> it has are objects.
\<close>

definition lacks_field :: "'f pyval \<Rightarrow> bool" where
  "lacks_field forecast =
     (field forecast ''dt'' = None \<or> field forecast ''main'' = None \<or>
      field2 forecast ''main'' ''temp'' = None \<or> field2 forecast ''main'' ''humidity'' = None \<or>
      field forecast ''wind'' = None \<or> field2 forecast ''wind'' ''speed'' = None)"

definition sound_where_present :: "'f platform \<Rightarrow> 'f pyval \<Rightarrow> bool" where
  "sound_where_present env forecast =
     ((case field forecast ''dt'' of
         None \<Rightarrow> True
       | Some dt \<Rightarrow> (case fromtimestamp env dt of Inl e \<Rightarrow> False | Inr ymd \<Rightarrow> True)) \<and>
      (case field forecast ''main'' of None \<Rightarrow> True | Some (PDict m) \<Rightarrow> True | Some v \<Rightarrow> False) \<and>
      (case field forecast ''wind'' of None \<Rightarrow> True | Some (PDict w) \<Rightarrow> True | Some v \<Rightarrow> False))"

text \<open>
  Calls one after the other. An object is mutable and the network may remember what it
  was asked, so a method runs in a world: the fields of the object it is called on, and
  the requests sent so far. It returns its outcome and the world after it. A network
  answers a request, with the decoded body or with the exception raised, after the
  requests sent before it.
\<close>

type_synonym 'f network = "request list \<Rightarrow> request \<Rightarrow> error + 'f pyval"

record world =
  object :: WeatherAPI
  traffic :: "request list"

definition requests_get :: "'f network \<Rightarrow> request \<Rightarrow> world \<Rightarrow> (error + 'f pyval) \<times> world" where
  "requests_get net r w = (net (traffic w) r, w\<lparr>traffic := traffic w @ [r]\<rparr>)"

definition sending_request_st :: "'f network \<Rightarrow> string \<Rightarrow> world \<Rightarrow> (error + 'f pyval) \<times> world" where
  "sending_request_st net city w =
     requests_get net
       (Get (url (object w)) [(''appid'', api_key (object w)), (''q'', city), (''units'', ''metric'')])
       w"

text \<open>
  \<^verbatim>\<open>_processing_response\<close> reads its argument only, and the coercions are built-ins, so
  they leave the world as \<^verbatim>\<open>_sending_request\<close> left it.
\<close>

definition get_weather_st ::
  "'f platform \<Rightarrow> 'f network \<Rightarrow> string \<Rightarrow> world \<Rightarrow> (error + 'f pyval) \<times> world" where
  "get_weather_st env net city w =
     (case sending_request_st net city w of
        (Inl e, w1) \<Rightarrow> (Inl e, w1)
      | (Inr data, w1) \<Rightarrow>
     (case processing_response data of
        Inl e \<Rightarrow> (Inl e, w1)
      | Inr (temp_c, humidity, wind_mps) \<Rightarrow>
     (case py_float env temp_c of Inl e \<Rightarrow> (Inl e, w1) | Inr t \<Rightarrow>
     (case py_int env humidity of Inl e \<Rightarrow> (Inl e, w1) | Inr h \<Rightarrow>
     (case py_float env wind_mps of Inl e \<Rightarrow> (Inl e, w1) | Inr x \<Rightarrow>
        (Inr (PDict [(''temperature'', PFloat t), (''humidity'', PInt h),
                     (''wind_speed'', PFloat x)]), w1))))))"

definition send_request_st :: "'f network \<Rightarrow> string \<Rightarrow> world \<Rightarrow> (error + 'f pyval) \<times> world" where
  "send_request_st net city w = requests_get net (Get (send_request_url (object w) city) []) w"

text \<open>
  After \<^verbatim>\<open>_send_request\<close>, \<^verbatim>\<open>get_forecast\<close> works on its local variables only.
\<close>

definition get_forecast_st ::
  "'f platform \<Rightarrow> 'f network \<Rightarrow> string \<Rightarrow> world \<Rightarrow> (error + 'f pyval list) \<times> world" where
  "get_forecast_st env net city w =
     (case send_request_st net city w of
        (Inl e, w1) \<Rightarrow> (Inl e, w1)
      | (Inr data, w1) \<Rightarrow>
     (case py_getitem data ''list'' of Inl e \<Rightarrow> (Inl e, w1) | Inr lst \<Rightarrow>
     (case py_slice5 lst of Inl e \<Rightarrow> (Inl e, w1) | Inr sliced \<Rightarrow>
     (case py_iter sliced of Inl e \<Rightarrow> (Inl e, w1) | Inr forecasts \<Rightarrow>
        (forecast_loop env [] forecasts, w1)))))"

text \<open>
  A caller that makes two calls on one object, the second in the world that the first
  left, and keeps both outcomes. \<open>weather_request\<close> and \<open>forecast_request\<close> name the
  request that \<^verbatim>\<open>_sending_request\<close> and \<^verbatim>\<open>_send_request\<close> make for an object and a city.
\<close>

definition weather_request :: "WeatherAPI \<Rightarrow> string \<Rightarrow> request" where
  "weather_request self city =
     Get (url self) [(''appid'', api_key self), (''q'', city), (''units'', ''metric'')]"

definition forecast_request :: "WeatherAPI \<Rightarrow> string \<Rightarrow> request" where
  "forecast_request self city = Get (send_request_url self city) []"

definition weather_twice ::
  "'f platform \<Rightarrow> 'f network \<Rightarrow> string \<Rightarrow> string \<Rightarrow> world
     \<Rightarrow> ((error + 'f pyval) \<times> (error + 'f pyval)) \<times> world" where
  "weather_twice env net city1 city2 w =
     (case get_weather_st env net city1 w of (first, w1) \<Rightarrow>
     (case get_weather_st env net city2 w1 of (second, w2) \<Rightarrow> ((first, second), w2)))"

definition forecast_twice ::
  "'f platform \<Rightarrow> 'f network \<Rightarrow> string \<Rightarrow> string \<Rightarrow> world
     \<Rightarrow> ((error + 'f pyval list) \<times> (error + 'f pyval list)) \<times> world" where
  "forecast_twice env net city1 city2 w =
     (case get_forecast_st env net city1 w of (first, w1) \<Rightarrow>
     (case get_forecast_st env net city2 w1 of (second, w2) \<Rightarrow> ((first, second), w2)))"

section \<open>A platform for the examples\<close>

text \<open>
  The examples run on a platform in the time zone UTC whose floats are the rationals and
  whose C library does not pad the year, with a given network. It parses no text and
  prints no value. Of a float, \<^verbatim>\<open>datetime.fromtimestamp\<close> rounds the fraction to
  microseconds, a tie to the even one, and carries into the whole seconds.
\<close>

definition round_half_even :: "rat \<Rightarrow> int" where
  "round_half_even q =
     (let f = \<lfloor>q\<rfloor>; d = q - of_int f
      in if d < 1 / 2 then f else if 1 / 2 < d then f + 1 else if even f then f else f + 1)"

definition example_seconds :: "rat \<Rightarrow> int option" where
  "example_seconds x =
     (let intpart = (if 0 \<le> x then \<lfloor>x\<rfloor> else \<lceil>x\<rceil>);
          us = round_half_even ((x - of_int intpart) * 1000000);
          seconds = (if 1000000 \<le> us then intpart + 1 else if us < 0 then intpart - 1
                     else intpart)
      in if seconds < - (2 ^ 63) \<or> 2 ^ 63 \<le> seconds then None else Some seconds)"

definition example_platform :: "(request \<Rightarrow> error + rat pyval) \<Rightarrow> rat platform" where
  "example_platform net =
     \<lparr>http_get = net,
      float_of_int = (\<lambda>n. Some (of_int n)),
      float_of_str = (\<lambda>s. None),
      is_nan = (\<lambda>x. False),
      int_of_float = (\<lambda>x. Some (if 0 \<le> x then \<lfloor>x\<rfloor> else \<lceil>x\<rceil>)),
      int_of_str = (\<lambda>s. None),
      str_of = (\<lambda>v. []),
      utcoffset = (\<lambda>t. 0),
      seconds_of_float = example_seconds,
      pads_year = False\<rparr>"

text \<open>
  A well-formed entry of the forecast list for the instant \<open>t\<close>, the answer of a
  network that sends the given entries whatever the request, and the forecast client made
  with the key \<^verbatim>\<open>key\<close>.
\<close>

definition entry_at :: "int \<Rightarrow> rat pyval" where
  "entry_at t =
     PDict [(''dt'', PInt t),
            (''main'', PDict [(''temp'', PFloat 21.5), (''humidity'', PInt 60)]),
            (''wind'', PDict [(''speed'', PFloat 3.2)])]"

definition forecast_net :: "rat pyval list \<Rightarrow> request \<Rightarrow> error + rat pyval" where
  "forecast_net entries r = Inr (PDict [(''cod'', PStr ''200''), (''list'', PList entries)])"

definition example_client :: WeatherAPI where
  "example_client = WeatherForecast_init ''key''"

text \<open>
  A network that gives its first, second, ... request the first, second, ... of the
  given answers, and fails once they are used up.
\<close>

definition answers_in_turn :: "(error + rat pyval) list \<Rightarrow> rat network" where
  "answers_in_turn answers sent r =
     (if length sent < length answers then answers ! length sent else Inl RequestException)"

section \<open>Lemmas on the built-ins\<close>

lemma py_get_error: "py_get v k = Inl e \<Longrightarrow> e = AttributeError"
  by (cases v) simp_all

lemma py_float_error:
  "py_float env v = Inl e \<Longrightarrow> e = OverflowError \<or> e = ValueError \<or> e = TypeError"
  by (cases v) (simp_all split: option.splits)

lemma py_int_error:
  "py_int env v = Inl e \<Longrightarrow> e = OverflowError \<or> e = ValueError \<or> e = TypeError"
  by (cases v) (simp_all split: option.splits if_splits)

lemma processing_response_error: "processing_response data = Inl e \<Longrightarrow> e = AttributeError"
  unfolding processing_response_def
  by (auto split: sum.splits dest: py_get_error)

lemma processing_response_dicts:
  assumes "map_of d ''main'' = Some (PDict m)" and "map_of d ''wind'' = Some (PDict w)"
  shows "processing_response (PDict d) =
           Inr (case map_of m ''temp'' of None \<Rightarrow> PNone | Some v \<Rightarrow> v,
                case map_of m ''humidity'' of None \<Rightarrow> PNone | Some v \<Rightarrow> v,
                case map_of w ''speed'' of None \<Rightarrow> PNone | Some v \<Rightarrow> v)"
  using assms by (simp add: processing_response_def)

lemma processing_response_absent_key:
  assumes "map_of d ''main'' = None \<or> map_of d ''wind'' = None"
  shows "processing_response (PDict d) = Inl AttributeError"
proof (cases "map_of d ''main''")
  case None
  then show ?thesis by (simp add: processing_response_def)
next
  case (Some m)
  with assms have w: "map_of d ''wind'' = None" by simp
  show ?thesis
    by (cases m) (simp_all add: processing_response_def Some w)
qed

lemma processing_response_result:
  assumes "processing_response (PDict d) = Inr (t, h, s)"
  shows "\<exists>m w. map_of d ''main'' = Some (PDict m) \<and> map_of d ''wind'' = Some (PDict w) \<and>
           t = (case map_of m ''temp'' of None \<Rightarrow> PNone | Some v \<Rightarrow> v) \<and>
           h = (case map_of m ''humidity'' of None \<Rightarrow> PNone | Some v \<Rightarrow> v) \<and>
           s = (case map_of w ''speed'' of None \<Rightarrow> PNone | Some v \<Rightarrow> v)"
proof -
  obtain mv where mv: "map_of d ''main'' = Some mv"
    using assms processing_response_absent_key[of d] by (cases "map_of d ''main''") auto
  obtain wv where wv: "map_of d ''wind'' = Some wv"
    using assms processing_response_absent_key[of d] by (cases "map_of d ''wind''") auto
  obtain m where m: "mv = PDict m"
    using assms mv by (cases mv) (simp_all add: processing_response_def)
  obtain w where w: "wv = PDict w"
    using assms mv wv m by (cases wv) (simp_all add: processing_response_def)
  show ?thesis
    using assms processing_response_dicts[of d m w] mv wv m w by simp
qed

lemma get_weather_after_response:
  assumes "sending_request env self city = Inr data"
    and "processing_response data = Inr (t, h, s)"
  shows "get_weather env self city =
           (case py_float env t of Inl e \<Rightarrow> Inl e | Inr x \<Rightarrow>
           (case py_int env h of Inl e \<Rightarrow> Inl e | Inr n \<Rightarrow>
           (case py_float env s of Inl e \<Rightarrow> Inl e | Inr y \<Rightarrow>
              Inr (PDict [(''temperature'', PFloat x), (''humidity'', PInt n),
                          (''wind_speed'', PFloat y)]))))"
  using assms by (simp add: get_weather_def)

lemma get_weather_processing_error:
  assumes "sending_request env self city = Inr data"
    and "processing_response data = Inl e"
  shows "get_weather env self city = Inl e"
  using assms by (simp add: get_weather_def)

lemma coercion_of_None:
  assumes "t = PNone \<or> h = PNone \<or> s = PNone"
  shows "\<exists>e. (case py_float env t of Inl e \<Rightarrow> Inl e | Inr x \<Rightarrow>
              (case py_int env h of Inl e \<Rightarrow> Inl e | Inr n \<Rightarrow>
              (case py_float env s of Inl e \<Rightarrow> Inl e | Inr y \<Rightarrow> Inr (f x n y)))) = Inl e
            \<and> (e = OverflowError \<or> e = ValueError \<or> e = TypeError)"
proof (cases "py_float env t")
  case (Inl e)
  then show ?thesis using py_float_error[OF Inl] by simp
next
  case t: (Inr x)
  then have tn: "t \<noteq> PNone" by auto
  show ?thesis
  proof (cases "py_int env h")
    case (Inl e)
    then show ?thesis using py_int_error[OF Inl] t by simp
  next
    case h: (Inr n)
    then have hn: "h \<noteq> PNone" by auto
    from assms tn hn have "s = PNone" by simp
    then show ?thesis using t h by simp
  qed
qed

section \<open>The current-weather client: theorems\<close>

text \<open>
  C3. When the response to the request has \<open>main.temp = 21.5\<close>, \<open>main.humidity = 60\<close> and
  \<open>wind.speed = 3.2\<close> (a float, an int and a float, whatever else it holds),
  \<^verbatim>\<open>_get_weather\<close> returns the dict with \<open>temperature\<close> the float 21.5, \<open>humidity\<close> the int
  60 and \<open>wind_speed\<close> the float 3.2.
\<close>

theorem get_weather_well_formed:
  fixes env :: "rat platform"
  assumes "sending_request env self city = Inr (PDict d)"
    and "map_of d ''main'' = Some (PDict m)"
    and "map_of m ''temp'' = Some (PFloat 21.5)"
    and "map_of m ''humidity'' = Some (PInt 60)"
    and "map_of d ''wind'' = Some (PDict w)"
    and "map_of w ''speed'' = Some (PFloat 3.2)"
  shows "get_weather env self city =
           Inr (PDict [(''temperature'', PFloat 21.5), (''humidity'', PInt 60),
                       (''wind_speed'', PFloat 3.2)])"
proof -
  have "processing_response (PDict d) = Inr (PFloat 21.5, PInt 60, PFloat 3.2)"
    using processing_response_dicts[OF assms(2) assms(5)] assms(3,4,6) by simp
  from get_weather_after_response[OF assms(1) this] show ?thesis by simp
qed

theorem get_weather_well_formed_witness:
  "get_weather
     (example_platform (\<lambda>r. Inr (PDict
        [(''main'', PDict [(''temp'', PFloat 21.5), (''humidity'', PInt 60)]),
         (''wind'', PDict [(''speed'', PFloat 3.2)])])))
     (WeatherAPI_init ''key'') ''Odessa''
   = Inr (PDict [(''temperature'', PFloat 21.5), (''humidity'', PInt 60),
                 (''wind_speed'', PFloat 3.2)])"
  by (rule get_weather_well_formed[where
        d = "[(''main'', PDict [(''temp'', PFloat 21.5), (''humidity'', PInt 60)]),
              (''wind'', PDict [(''speed'', PFloat 3.2)])]"
        and m = "[(''temp'', PFloat 21.5), (''humidity'', PInt 60)]"
        and w = "[(''speed'', PFloat 3.2)]"])
     (simp_all add: sending_request_def example_platform_def)

text \<open>
  C1, as the code has it. When the response is a JSON object in which \<open>main\<close>,
  \<open>main.temp\<close>, \<open>main.humidity\<close>, \<open>wind\<close> or \<open>wind.speed\<close> is absent, \<^verbatim>\<open>_get_weather\<close>
  returns no dict: it raises, and the exception is an \<^verbatim>\<open>AttributeError\<close>, a \<^verbatim>\<open>TypeError\<close>,
  a \<^verbatim>\<open>ValueError\<close> or an \<^verbatim>\<open>OverflowError\<close>, none of which is a \<^verbatim>\<open>LookupError\<close>.
\<close>

theorem get_weather_absent_field:
  assumes "sending_request env self city = Inr (PDict d)"
    and "field (PDict d) ''main'' = None \<or> field2 (PDict d) ''main'' ''temp'' = None \<or>
         field2 (PDict d) ''main'' ''humidity'' = None \<or> field (PDict d) ''wind'' = None \<or>
         field2 (PDict d) ''wind'' ''speed'' = None"
  shows "\<exists>e. get_weather env self city = Inl e \<and> \<not> is_LookupError e \<and>
           (e = AttributeError \<or> e = TypeError \<or> e = ValueError \<or> e = OverflowError)"
proof (cases "processing_response (PDict d)")
  case (Inl e)
  from processing_response_error[OF Inl] get_weather_processing_error[OF assms(1) Inl]
  show ?thesis by (simp add: is_LookupError_def)
next
  case (Inr r)
  obtain t h s where r: "r = (t, h, s)" by (cases r) auto
  from processing_response_result[OF Inr[unfolded r]] obtain m w where
    mw: "map_of d ''main'' = Some (PDict m)" "map_of d ''wind'' = Some (PDict w)"
      "t = (case map_of m ''temp'' of None \<Rightarrow> PNone | Some v \<Rightarrow> v)"
      "h = (case map_of m ''humidity'' of None \<Rightarrow> PNone | Some v \<Rightarrow> v)"
      "s = (case map_of w ''speed'' of None \<Rightarrow> PNone | Some v \<Rightarrow> v)"
    by blast
  from assms(2) mw have "t = PNone \<or> h = PNone \<or> s = PNone"
    by (auto simp: field_def field2_def)
  from coercion_of_None[OF this, where env = env and
      f = "\<lambda>x n y. PDict [(''temperature'', PFloat x), (''humidity'', PInt n),
                            (''wind_speed'', PFloat y)]"]
  obtain e where e: "get_weather env self city = Inl e"
      "e = OverflowError \<or> e = ValueError \<or> e = TypeError"
    unfolding get_weather_after_response[OF assms(1) Inr[unfolded r]] by blast
  from e(2) have "\<not> is_LookupError e" by (auto simp: is_LookupError_def)
  with e show ?thesis by blast
qed

theorem get_weather_absent_field_witness:
  "\<exists>e. get_weather (example_platform (\<lambda>r. Inr (PDict [(''wind'', PDict [(''speed'', PFloat 3.2)])])))
          (WeatherAPI_init ''key'') ''Odessa'' = Inl e \<and> \<not> is_LookupError e \<and>
        (e = AttributeError \<or> e = TypeError \<or> e = ValueError \<or> e = OverflowError)"
  by (rule get_weather_absent_field[where d = "[(''wind'', PDict [(''speed'', PFloat 3.2)])]"])
     (simp_all add: sending_request_def example_platform_def field_def)

theorem get_weather_lookup_error_counterexample:
  "get_weather (example_platform (\<lambda>r. Inr (PDict [(''wind'', PDict [(''speed'', PFloat 3.2)])])))
     (WeatherAPI_init ''key'') ''Odessa'' = Inl AttributeError
   \<and> \<not> is_LookupError AttributeError"
  by (simp add: get_weather_def sending_request_def example_platform_def
        processing_response_def is_LookupError_def)

text \<open>
  C10, as the code has it. For a response that is a JSON object: when \<open>main\<close> or \<open>wind\<close>
  is absent, \<^verbatim>\<open>_get_weather\<close> raises \<^verbatim>\<open>AttributeError\<close>. When both are objects,
  \<^verbatim>\<open>_processing_response\<close> returns the three entries with \<^verbatim>\<open>None\<close> for an absent one, and
  \<^verbatim>\<open>_get_weather\<close> then raises \<^verbatim>\<open>TypeError\<close> for the first absent entry, provided that the
  entries coerced before it (\<open>temp\<close>, then \<open>humidity\<close>, then \<open>speed\<close>) are coerced without an
  exception of their own.
\<close>

theorem get_weather_failure_kinds:
  assumes "sending_request env self city = Inr (PDict d)"
  shows "(map_of d ''main'' = None \<or> map_of d ''wind'' = None \<longrightarrow>
            get_weather env self city = Inl AttributeError) \<and>
         (\<forall>m w. map_of d ''main'' = Some (PDict m) \<and> map_of d ''wind'' = Some (PDict w) \<longrightarrow>
            processing_response (PDict d) =
              Inr (case map_of m ''temp'' of None \<Rightarrow> PNone | Some v \<Rightarrow> v,
                   case map_of m ''humidity'' of None \<Rightarrow> PNone | Some v \<Rightarrow> v,
                   case map_of w ''speed'' of None \<Rightarrow> PNone | Some v \<Rightarrow> v) \<and>
            (map_of m ''temp'' = None \<longrightarrow> get_weather env self city = Inl TypeError) \<and>
            (\<forall>t x. map_of m ''temp'' = Some t \<and> py_float env t = Inr x \<and>
                   map_of m ''humidity'' = None \<longrightarrow>
                   get_weather env self city = Inl TypeError) \<and>
            (\<forall>t x h n. map_of m ''temp'' = Some t \<and> py_float env t = Inr x \<and>
                   map_of m ''humidity'' = Some h \<and> py_int env h = Inr n \<and>
                   map_of w ''speed'' = None \<longrightarrow>
                   get_weather env self city = Inl TypeError))"
proof (intro conjI allI impI)
  assume "map_of d ''main'' = None \<or> map_of d ''wind'' = None"
  from get_weather_processing_error[OF assms processing_response_absent_key[OF this]]
  show "get_weather env self city = Inl AttributeError" .
next
  fix m w
  assume mw: "map_of d ''main'' = Some (PDict m) \<and> map_of d ''wind'' = Some (PDict w)"
  then have pr: "processing_response (PDict d) =
      Inr (case map_of m ''temp'' of None \<Rightarrow> PNone | Some v \<Rightarrow> v,
           case map_of m ''humidity'' of None \<Rightarrow> PNone | Some v \<Rightarrow> v,
           case map_of w ''speed'' of None \<Rightarrow> PNone | Some v \<Rightarrow> v)"
    using processing_response_dicts by blast
  show "processing_response (PDict d) =
      Inr (case map_of m ''temp'' of None \<Rightarrow> PNone | Some v \<Rightarrow> v,
           case map_of m ''humidity'' of None \<Rightarrow> PNone | Some v \<Rightarrow> v,
           case map_of w ''speed'' of None \<Rightarrow> PNone | Some v \<Rightarrow> v)"
    by (rule pr)
  note gw = get_weather_after_response[OF assms pr]
  {
    assume "map_of m ''temp'' = None"
    then show "get_weather env self city = Inl TypeError"
      unfolding gw by simp
  }
  {
    fix t x
    assume "map_of m ''temp'' = Some t \<and> py_float env t = Inr x \<and> map_of m ''humidity'' = None"
    then show "get_weather env self city = Inl TypeError"
      unfolding gw by simp
  }
  {
    fix t x h n
    assume "map_of m ''temp'' = Some t \<and> py_float env t = Inr x \<and>
            map_of m ''humidity'' = Some h \<and> py_int env h = Inr n \<and> map_of w ''speed'' = None"
    then show "get_weather env self city = Inl TypeError"
      unfolding gw by simp
  }
qed

theorem get_weather_failure_kinds_witness:
  "get_weather
     (example_platform (\<lambda>r. Inr (PDict
        [(''main'', PDict [(''temp'', PFloat 21.5)]), (''wind'', PDict [(''speed'', PFloat 3.2)])])))
     (WeatherAPI_init ''key'') ''Odessa'' = Inl TypeError
   \<and> get_weather
     (example_platform (\<lambda>r. Inr (PDict [(''main'', PDict [(''temp'', PFloat 21.5)])])))
     (WeatherAPI_init ''key'') ''Odessa'' = Inl AttributeError"
proof
  let ?d = "[(''main'', PDict [(''temp'', PFloat (21.5::rat))]),
             (''wind'', PDict [(''speed'', PFloat 3.2)])]"
  let ?env = "example_platform (\<lambda>r. Inr (PDict ?d))"
  have s: "sending_request ?env (WeatherAPI_init ''key'') ''Odessa'' = Inr (PDict ?d)"
    by (simp add: sending_request_def example_platform_def)
  have "map_of [(''temp'', PFloat (21.5::rat))] ''temp'' = Some (PFloat 21.5) \<and>
        py_float ?env (PFloat 21.5) = Inr 21.5 \<and>
        map_of [(''temp'', PFloat (21.5::rat))] ''humidity'' = None"
    by simp
  moreover have "map_of ?d ''main'' = Some (PDict [(''temp'', PFloat 21.5)]) \<and>
        map_of ?d ''wind'' = Some (PDict [(''speed'', PFloat 3.2)])"
    by simp
  ultimately show "get_weather ?env (WeatherAPI_init ''key'') ''Odessa'' = Inl TypeError"
    using get_weather_failure_kinds[OF s] by blast
next
  let ?d = "[(''main'', PDict [(''temp'', PFloat (21.5::rat))])]"
  let ?env = "example_platform (\<lambda>r. Inr (PDict ?d))"
  have s: "sending_request ?env (WeatherAPI_init ''key'') ''Odessa'' = Inr (PDict ?d)"
    by (simp add: sending_request_def example_platform_def)
  from get_weather_failure_kinds[OF s]
  show "get_weather ?env (WeatherAPI_init ''key'') ''Odessa'' = Inl AttributeError"
    by simp
qed

theorem get_weather_type_error_counterexample:
  "get_weather
     (example_platform (\<lambda>r. Inr (PDict
        [(''main'', PDict [(''temp'', PStr ''abc'')]), (''wind'', PDict [(''speed'', PFloat 3.2)])])))
     (WeatherAPI_init ''key'') ''Odessa'' = Inl ValueError
   \<and> get_weather
     (example_platform (\<lambda>r. Inr (PDict [(''main'', PDict [(''humidity'', PInt 60)])])))
     (WeatherAPI_init ''key'') ''Odessa'' = Inl AttributeError"
  by (simp add: get_weather_def sending_request_def example_platform_def processing_response_def)

text \<open>
  C8. When \<^verbatim>\<open>_get_weather\<close> raises, \<^verbatim>\<open>show_weather\<close> leaves standard output as it was and
  raises the same exception; when \<^verbatim>\<open>_get_weather\<close> returns, \<^verbatim>\<open>show_weather\<close> appends one
  line that ends in a newline. So standard output changes only after a fetch that
  succeeded.
\<close>

theorem show_weather_output:
  "(\<forall>e. get_weather env self city = Inl e \<longrightarrow>
         show_weather env self city stdout = (stdout, Inl e)) \<and>
   (\<forall>weather_data. get_weather env self city = Inr weather_data \<longrightarrow>
         (\<exists>line. show_weather env self city stdout = (stdout @ line @ [CHR 0x0A], Inr ()))) \<and>
   (fst (show_weather env self city stdout) \<noteq> stdout \<longrightarrow>
         (\<exists>weather_data. get_weather env self city = Inr weather_data))"
proof (intro conjI allI impI)
  fix e
  assume "get_weather env self city = Inl e"
  then show "show_weather env self city stdout = (stdout, Inl e)"
    by (simp add: show_weather_def)
next
  fix weather_data
  assume g: "get_weather env self city = Inr weather_data"
  then obtain x n y where "weather_data =
      PDict [(''temperature'', PFloat x), (''humidity'', PInt n), (''wind_speed'', PFloat y)]"
    by (auto simp: get_weather_def split: sum.splits prod.splits)
  with g have "show_weather env self city stdout =
      (stdout @ (text_temperature @ city @ '': '' @ str_of env (PFloat x) @ text_humidity
         @ str_of env (PInt n) @ text_wind @ str_of env (PFloat y) @ text_unit) @ [CHR 0x0A],
       Inr ())"
    by (simp add: show_weather_def)
  then show "\<exists>line. show_weather env self city stdout = (stdout @ line @ [CHR 0x0A], Inr ())"
    by blast
next
  assume "fst (show_weather env self city stdout) \<noteq> stdout"
  then show "\<exists>weather_data. get_weather env self city = Inr weather_data"
    by (cases "get_weather env self city") (simp_all add: show_weather_def)
qed

theorem show_weather_output_witness:
  "show_weather (example_platform (\<lambda>r. Inl RequestException)) (WeatherAPI_init ''key'')
     ''Odessa'' ''earlier output'' = (''earlier output'', Inl RequestException)"
proof -
  have "get_weather (example_platform (\<lambda>r. Inl RequestException)) (WeatherAPI_init ''key'')
          ''Odessa'' = Inl RequestException"
    by (simp add: get_weather_def sending_request_def example_platform_def)
  with show_weather_output[of "example_platform (\<lambda>r. Inl RequestException)"
      "WeatherAPI_init ''key''" "''Odessa''" "''earlier output''"]
  show ?thesis by blast
qed

section \<open>Calls one after the other: theorems\<close>

lemma py_float_net: "py_float (env\<lparr>http_get := net\<rparr>) v = py_float env v"
  by (cases v) simp_all

lemma py_int_net: "py_int (env\<lparr>http_get := net\<rparr>) v = py_int env v"
  by (cases v) simp_all

lemma local_time_net: "local_time (env\<lparr>http_get := net\<rparr>) u = local_time env u"
  by (simp add: local_time_def)

lemma local_date_net: "local_date (env\<lparr>http_get := net\<rparr>) t = local_date env t"
  by (simp add: local_date_def local_time_net Let_def cong: sum.case_cong if_cong)

lemma fromtimestamp_net: "fromtimestamp (env\<lparr>http_get := net\<rparr>) v = fromtimestamp env v"
  by (cases v) (simp_all add: local_date_net cong: option.case_cong)

lemma strftime_Ymd_net: "strftime_Ymd (env\<lparr>http_get := net\<rparr>) ymd = strftime_Ymd env ymd"
  by (simp add: strftime_Ymd_def year_text_def)

lemma forecast_entry_net: "forecast_entry (env\<lparr>http_get := net\<rparr>) f = forecast_entry env f"
  by (simp add: forecast_entry_def fromtimestamp_net strftime_Ymd_net cong: sum.case_cong)

lemma forecast_loop_net:
  "forecast_loop (env\<lparr>http_get := net\<rparr>) result fs = forecast_loop env result fs"
  by (induction fs arbitrary: result) (simp_all add: forecast_entry_net cong: sum.case_cong)

lemma get_weather_net:
  "get_weather (env\<lparr>http_get := net\<rparr>) self city =
     (case net (Get (url self) [(''appid'', api_key self), (''q'', city), (''units'', ''metric'')]) of
        Inl e \<Rightarrow> Inl e
      | Inr data \<Rightarrow>
     (case processing_response data of Inl e \<Rightarrow> Inl e | Inr (temp_c, humidity, wind_mps) \<Rightarrow>
     (case py_float env temp_c of Inl e \<Rightarrow> Inl e | Inr t \<Rightarrow>
     (case py_int env humidity of Inl e \<Rightarrow> Inl e | Inr h \<Rightarrow>
     (case py_float env wind_mps of Inl e \<Rightarrow> Inl e | Inr w \<Rightarrow>
        Inr (PDict [(''temperature'', PFloat t), (''humidity'', PInt h),
                    (''wind_speed'', PFloat w)]))))))"
  by (simp add: get_weather_def sending_request_def py_float_net py_int_net
        cong: sum.case_cong prod.case_cong)

lemma get_forecast_net:
  "get_forecast (env\<lparr>http_get := net\<rparr>) self city =
     (case net (Get (send_request_url self city) []) of Inl e \<Rightarrow> Inl e | Inr data \<Rightarrow>
     (case py_getitem data ''list'' of Inl e \<Rightarrow> Inl e | Inr lst \<Rightarrow>
     (case py_slice5 lst of Inl e \<Rightarrow> Inl e | Inr sliced \<Rightarrow>
     (case py_iter sliced of Inl e \<Rightarrow> Inl e | Inr forecasts \<Rightarrow>
        forecast_loop env [] forecasts))))"
  by (simp add: get_forecast_def send_request_def forecast_loop_net cong: sum.case_cong)

text \<open>
  A call in a world: its outcome is that of the method on the object of the world with
  the network as it answers after the traffic so far, and the world afterwards differs
  by the one request sent.
\<close>

lemma get_weather_st_run:
  "get_weather_st env net city w =
     (get_weather (env\<lparr>http_get := net (traffic w)\<rparr>) (object w) city,
      w\<lparr>traffic := traffic w @ [weather_request (object w) city]\<rparr>)"
  by (simp add: get_weather_st_def sending_request_st_def requests_get_def get_weather_net
        weather_request_def split: sum.splits prod.splits)

lemma get_forecast_st_run:
  "get_forecast_st env net city w =
     (get_forecast (env\<lparr>http_get := net (traffic w)\<rparr>) (object w) city,
      w\<lparr>traffic := traffic w @ [forecast_request (object w) city]\<rparr>)"
  by (simp add: get_forecast_st_def send_request_st_def requests_get_def get_forecast_net
        forecast_request_def split: sum.splits prod.splits)

lemma get_weather_of_answer:
  assumes "net (weather_request self city) = net' (weather_request self' city')"
  shows "get_weather (env\<lparr>http_get := net\<rparr>) self city
         = get_weather (env\<lparr>http_get := net'\<rparr>) self' city'"
  using assms unfolding get_weather_net weather_request_def by simp

lemma get_forecast_of_answer:
  assumes "net (forecast_request self city) = net' (forecast_request self' city')"
  shows "get_forecast (env\<lparr>http_get := net\<rparr>) self city
         = get_forecast (env\<lparr>http_get := net'\<rparr>) self' city'"
  using assms unfolding get_forecast_net forecast_request_def by simp

lemma weather_twice_run:
  "weather_twice env net city1 city2 w =
     ((get_weather (env\<lparr>http_get := net (traffic w)\<rparr>) (object w) city1,
       get_weather (env\<lparr>http_get := net (traffic w @ [weather_request (object w) city1])\<rparr>)
         (object w) city2),
      w\<lparr>traffic := traffic w @ [weather_request (object w) city1,
                                  weather_request (object w) city2]\<rparr>)"
  by (simp add: weather_twice_def get_weather_st_run)

lemma forecast_twice_run:
  "forecast_twice env net city1 city2 w =
     ((get_forecast (env\<lparr>http_get := net (traffic w)\<rparr>) (object w) city1,
       get_forecast (env\<lparr>http_get := net (traffic w @ [forecast_request (object w) city1])\<rparr>)
         (object w) city2),
      w\<lparr>traffic := traffic w @ [forecast_request (object w) city1,
                                  forecast_request (object w) city2]\<rparr>)"
  by (simp add: forecast_twice_def get_forecast_st_run)

text \<open>
  C9. Two calls made one after the other on one object, the second in the world that the
  first left, compared over two runs that may differ in everything: the object, the
  cities, the requests sent before, the network. When the second call gets the same
  answer to its request in both runs, it returns the same in both, whatever the first
  call asked, was answered and returned; and the first call likewise. The object is
  after the two calls as it was before them, and the traffic has grown by their two
  requests. This holds for \<^verbatim>\<open>_get_weather\<close> and for \<^verbatim>\<open>get_forecast\<close>.
\<close>

theorem consecutive_calls_independent:
  "(net (traffic w @ [weather_request (object w) city1]) (weather_request (object w) city2)
      = net' (traffic w' @ [weather_request (object w') city1']) (weather_request (object w') city2')
    \<longrightarrow> snd (fst (weather_twice env net city1 city2 w))
        = snd (fst (weather_twice env net' city1' city2' w'))) \<and>
   (net (traffic w) (weather_request (object w) city1)
      = net' (traffic w') (weather_request (object w') city1')
    \<longrightarrow> fst (fst (weather_twice env net city1 city2 w))
        = fst (fst (weather_twice env net' city1' city2' w'))) \<and>
   (net (traffic w @ [forecast_request (object w) city1]) (forecast_request (object w) city2)
      = net' (traffic w' @ [forecast_request (object w') city1']) (forecast_request (object w') city2')
    \<longrightarrow> snd (fst (forecast_twice env net city1 city2 w))
        = snd (fst (forecast_twice env net' city1' city2' w'))) \<and>
   (net (traffic w) (forecast_request (object w) city1)
      = net' (traffic w') (forecast_request (object w') city1')
    \<longrightarrow> fst (fst (forecast_twice env net city1 city2 w))
        = fst (fst (forecast_twice env net' city1' city2' w'))) \<and>
   object (snd (weather_twice env net city1 city2 w)) = object w \<and>
   object (snd (forecast_twice env net city1 city2 w)) = object w \<and>
   traffic (snd (weather_twice env net city1 city2 w))
     = traffic w @ [weather_request (object w) city1, weather_request (object w) city2] \<and>
   traffic (snd (forecast_twice env net city1 city2 w))
     = traffic w @ [forecast_request (object w) city1, forecast_request (object w) city2]"
proof (intro conjI impI)
  assume "net (traffic w @ [weather_request (object w) city1]) (weather_request (object w) city2)
      = net' (traffic w' @ [weather_request (object w') city1']) (weather_request (object w') city2')"
  then have "get_weather (env\<lparr>http_get := net (traffic w @ [weather_request (object w) city1])\<rparr>)
        (object w) city2
      = get_weather (env\<lparr>http_get := net' (traffic w' @ [weather_request (object w') city1'])\<rparr>)
        (object w') city2'"
    by (rule get_weather_of_answer)
  then show "snd (fst (weather_twice env net city1 city2 w))
        = snd (fst (weather_twice env net' city1' city2' w'))"
    by (simp only: weather_twice_run fst_conv snd_conv)
next
  assume "net (traffic w) (weather_request (object w) city1)
      = net' (traffic w') (weather_request (object w') city1')"
  then have "get_weather (env\<lparr>http_get := net (traffic w)\<rparr>) (object w) city1
      = get_weather (env\<lparr>http_get := net' (traffic w')\<rparr>) (object w') city1'"
    by (rule get_weather_of_answer)
  then show "fst (fst (weather_twice env net city1 city2 w))
        = fst (fst (weather_twice env net' city1' city2' w'))"
    by (simp only: weather_twice_run fst_conv snd_conv)
next
  assume "net (traffic w @ [forecast_request (object w) city1]) (forecast_request (object w) city2)
      = net' (traffic w' @ [forecast_request (object w') city1']) (forecast_request (object w') city2')"
  then have "get_forecast (env\<lparr>http_get := net (traffic w @ [forecast_request (object w) city1])\<rparr>)
        (object w) city2
      = get_forecast (env\<lparr>http_get := net' (traffic w' @ [forecast_request (object w') city1'])\<rparr>)
        (object w') city2'"
    by (rule get_forecast_of_answer)
  then show "snd (fst (forecast_twice env net city1 city2 w))
        = snd (fst (forecast_twice env net' city1' city2' w'))"
    by (simp only: forecast_twice_run fst_conv snd_conv)
next
  assume "net (traffic w) (forecast_request (object w) city1)
      = net' (traffic w') (forecast_request (object w') city1')"
  then have "get_forecast (env\<lparr>http_get := net (traffic w)\<rparr>) (object w) city1
      = get_forecast (env\<lparr>http_get := net' (traffic w')\<rparr>) (object w') city1'"
    by (rule get_forecast_of_answer)
  then show "fst (fst (forecast_twice env net city1 city2 w))
        = fst (fst (forecast_twice env net' city1' city2' w'))"
    by (simp only: forecast_twice_run fst_conv snd_conv)
qed (simp_all add: weather_twice_run forecast_twice_run)

theorem consecutive_calls_independent_witness:
  "snd (fst (forecast_twice (example_platform (\<lambda>r. Inl RequestException))
          (answers_in_turn
             [Inl RequestException, Inr (PDict [(''list'', PList [entry_at 1700000000])])])
          ''Odessa'' ''Kyiv'' \<lparr>object = example_client, traffic = []\<rparr>))
   = snd (fst (forecast_twice (example_platform (\<lambda>r. Inl RequestException))
          (answers_in_turn
             [Inl JSONDecodeError, Inr (PDict [(''list'', PList [])]),
              Inr (PDict [(''list'', PList [entry_at 1700000000])])])
          ''Lviv'' ''Kyiv''
          \<lparr>object = WeatherForecast_init ''other key'',
           traffic = [forecast_request example_client ''Paris'']\<rparr>))
   \<and> snd (fst (weather_twice (example_platform (\<lambda>r. Inl RequestException))
          (answers_in_turn
             [Inl RequestException,
              Inr (PDict [(''main'', PDict [(''temp'', PFloat 21.5), (''humidity'', PInt 60)]),
                          (''wind'', PDict [(''speed'', PFloat 3.2)])])])
          ''Odessa'' ''Kyiv'' \<lparr>object = WeatherAPI_init ''key'', traffic = []\<rparr>))
   = snd (fst (weather_twice (example_platform (\<lambda>r. Inl RequestException))
          (answers_in_turn
             [Inr (PDict []),
              Inr (PDict [(''main'', PDict [(''temp'', PFloat 21.5), (''humidity'', PInt 60)]),
                          (''wind'', PDict [(''speed'', PFloat 3.2)])])])
          ''Kyiv'' ''Kyiv'' \<lparr>object = WeatherAPI_init ''key'', traffic = []\<rparr>))"
proof -
  let ?env = "example_platform (\<lambda>r. Inl RequestException)"
  let ?a = "Inr (PDict [(''list'', PList [entry_at 1700000000])]) :: error + rat pyval"
  let ?net = "answers_in_turn [Inl RequestException, ?a]"
  let ?net' = "answers_in_turn [Inl JSONDecodeError, Inr (PDict [(''list'', PList [])]), ?a]"
  let ?w = "\<lparr>object = example_client, traffic = []\<rparr>"
  let ?w' = "\<lparr>object = WeatherForecast_init ''other key'',
             traffic = [forecast_request example_client ''Paris'']\<rparr>"
  let ?b = "Inr (PDict [(''main'', PDict [(''temp'', PFloat 21.5), (''humidity'', PInt 60)]),
                        (''wind'', PDict [(''speed'', PFloat 3.2)])]) :: error + rat pyval"
  let ?n = "answers_in_turn [Inl RequestException, ?b]"
  let ?n' = "answers_in_turn [Inr (PDict []), ?b]"
  let ?v = "\<lparr>object = WeatherAPI_init ''key'', traffic = []\<rparr>"
  have f: "?net (traffic ?w @ [forecast_request (object ?w) ''Odessa''])
             (forecast_request (object ?w) ''Kyiv'')
         = ?net' (traffic ?w' @ [forecast_request (object ?w') ''Lviv''])
             (forecast_request (object ?w') ''Kyiv'')"
    by (simp add: answers_in_turn_def)
  have g: "?n (traffic ?v @ [weather_request (object ?v) ''Odessa''])
             (weather_request (object ?v) ''Kyiv'')
         = ?n' (traffic ?v @ [weather_request (object ?v) ''Kyiv''])
             (weather_request (object ?v) ''Kyiv'')"
    by (simp add: answers_in_turn_def)
  from f consecutive_calls_independent[where net = ?net and net' = ?net' and w = ?w and w' = ?w'
      and ?city1.0 = "''Odessa''" and ?city2.0 = "''Kyiv''" and city1' = "''Lviv''"
      and city2' = "''Kyiv''" and env = ?env]
  have 1: "snd (fst (forecast_twice ?env ?net ''Odessa'' ''Kyiv'' ?w))
         = snd (fst (forecast_twice ?env ?net' ''Lviv'' ''Kyiv'' ?w'))"
    by blast
  from g consecutive_calls_independent[where net = ?n and net' = ?n' and w = ?v and w' = ?v
      and ?city1.0 = "''Odessa''" and ?city2.0 = "''Kyiv''" and city1' = "''Kyiv''"
      and city2' = "''Kyiv''" and env = ?env]
  have 2: "snd (fst (weather_twice ?env ?n ''Odessa'' ''Kyiv'' ?v))
         = snd (fst (weather_twice ?env ?n' ''Kyiv'' ''Kyiv'' ?v))"
    by blast
  from 1 2 show ?thesis by (rule conjI)
qed

section \<open>The forecast client: theorems\<close>


lemma forecast_loop_fails:
  assumes "i < length fs" and "forecast_entry env (fs ! i) = Inl e"
    and "\<forall>j < i. \<exists>r. forecast_entry env (fs ! j) = Inr r"
  shows "forecast_loop env result fs = Inl e"
  using assms
proof (induction fs arbitrary: result i)
  case Nil
  then show ?case by simp
next
  case (Cons f fs)
  show ?case
  proof (cases i)
    case 0
    with Cons.prems show ?thesis by simp
  next
    case (Suc k)
    from Cons.prems(3) Suc obtain r where r: "forecast_entry env f = Inr r"
      by fastforce
    have "\<forall>j < k. \<exists>r. forecast_entry env (fs ! j) = Inr r"
      using Cons.prems(3) Suc by fastforce
    from Cons.IH[OF _ _ this, of "result @ [r]"] Cons.prems(1,2) Suc
    have "forecast_loop env (result @ [r]) fs = Inl e" by simp
    with r show ?thesis by simp
  qed
qed

lemma forecast_loop_some_failure:
  assumes "f \<in> set fs" and "forecast_entry env f = Inl e"
  shows "\<exists>e'. forecast_loop env result fs = Inl e'"
  using assms
proof (induction fs arbitrary: result)
  case Nil
  then show ?case by simp
next
  case (Cons g fs)
  then show ?case
    by (cases "forecast_entry env g") auto
qed

lemma get_forecast_of_list:
  assumes "send_request env self city = Inr (PDict d)" and "map_of d ''list'' = Some (PList xs)"
  shows "get_forecast env self city = forecast_loop env [] (take 5 xs)"
  using assms by (simp add: get_forecast_def)


lemma py_getitem_result:
  assumes "py_getitem v k = Inr x"
  shows "\<exists>e. v = PDict e \<and> map_of e k = Some x"
  using assms by (cases v) (simp_all split: option.splits)

lemma forecast_entry_well_formed:
  assumes "map_of e ''dt'' = Some dt" and "fromtimestamp env dt = Inr ymd"
    and "map_of e ''main'' = Some (PDict m)" and "map_of m ''temp'' = Some t"
    and "map_of m ''humidity'' = Some h"
    and "map_of e ''wind'' = Some (PDict w)" and "map_of w ''speed'' = Some s"
  shows "forecast_entry env (PDict e) =
           Inr (PDict [(''date'', PStr (strftime_Ymd env ymd)), (''temp'', t),
                       (''humidity'', h), (''wind_speed'', s)])"
  using assms by (simp add: forecast_entry_def)

lemma forecast_entry_result:
  assumes "forecast_entry env f = Inr r"
  shows "\<exists>e dt ymd m t h w s. f = PDict e \<and> map_of e ''dt'' = Some dt \<and>
           fromtimestamp env dt = Inr ymd \<and>
           map_of e ''main'' = Some (PDict m) \<and> map_of m ''temp'' = Some t \<and>
           map_of m ''humidity'' = Some h \<and>
           map_of e ''wind'' = Some (PDict w) \<and> map_of w ''speed'' = Some s \<and>
           r = PDict [(''date'', PStr (strftime_Ymd env ymd)), (''temp'', t),
                      (''humidity'', h), (''wind_speed'', s)]"
proof -
  from assms obtain dt where dt: "py_getitem f ''dt'' = Inr dt"
    by (cases "py_getitem f ''dt''") (simp_all add: forecast_entry_def)
  then obtain e where e: "f = PDict e" "map_of e ''dt'' = Some dt"
    using py_getitem_result by blast
  from assms dt obtain ymd where ymd: "fromtimestamp env dt = Inr ymd"
    by (cases "fromtimestamp env dt") (simp_all add: forecast_entry_def)
  from assms dt ymd obtain mv where mv: "py_getitem f ''main'' = Inr mv"
    by (cases "py_getitem f ''main''") (simp_all add: forecast_entry_def)
  from assms dt ymd mv obtain t where t: "py_getitem mv ''temp'' = Inr t"
    by (cases "py_getitem mv ''temp''") (simp_all add: forecast_entry_def)
  then obtain m where m: "mv = PDict m" "map_of m ''temp'' = Some t"
    using py_getitem_result by blast
  from assms dt ymd mv t obtain h where h: "py_getitem mv ''humidity'' = Inr h"
    by (cases "py_getitem mv ''humidity''") (simp_all add: forecast_entry_def)
  from assms dt ymd mv t h obtain wv where wv: "py_getitem f ''wind'' = Inr wv"
    by (cases "py_getitem f ''wind''") (simp_all add: forecast_entry_def)
  from assms dt ymd mv t h wv obtain s where s: "py_getitem wv ''speed'' = Inr s"
    by (cases "py_getitem wv ''speed''") (simp_all add: forecast_entry_def)
  then obtain w where w: "wv = PDict w" "map_of w ''speed'' = Some s"
    using py_getitem_result by blast
  have hm: "map_of m ''humidity'' = Some h"
    using h m(1) by (simp split: option.splits)
  have em: "map_of e ''main'' = Some (PDict m)"
    using mv e(1) m(1) by (simp split: option.splits)
  have ew: "map_of e ''wind'' = Some (PDict w)"
    using wv e(1) w(1) by (simp split: option.splits)
  from forecast_entry_well_formed[OF e(2) ymd em m(2) hm ew w(2)] assms e(1)
  have "r = PDict [(''date'', PStr (strftime_Ymd env ymd)), (''temp'', t),
                   (''humidity'', h), (''wind_speed'', s)]"
    by simp
  with e ymd em m(2) hm ew w(2) show ?thesis by blast
qed

lemma forecast_entry_lacks_field:
  assumes "lacks_field f"
  shows "\<exists>e. forecast_entry env f = Inl e"
proof (cases "forecast_entry env f")
  case (Inl e)
  then show ?thesis by blast
next
  case (Inr r)
  from forecast_entry_result[OF Inr] assms show ?thesis
    by (auto simp: lacks_field_def field_def field2_def)
qed

lemma forecast_entry_KeyError:
  assumes "lacks_field (PDict e)" and "sound_where_present env (PDict e)"
  shows "forecast_entry env (PDict e) = Inl KeyError"
proof (cases "map_of e ''dt''")
  case None
  then show ?thesis by (simp add: forecast_entry_def)
next
  case dt: (Some dt)
  with assms(2) obtain ymd where ymd: "fromtimestamp env dt = Inr ymd"
    by (cases "fromtimestamp env dt") (simp_all add: sound_where_present_def field_def)
  show ?thesis
  proof (cases "map_of e ''main''")
    case None
    then show ?thesis by (simp add: forecast_entry_def dt ymd)
  next
    case mv: (Some mv)
    with assms(2) obtain m where m: "mv = PDict m"
      by (cases mv) (simp_all add: sound_where_present_def field_def)
    show ?thesis
    proof (cases "map_of m ''temp''")
      case None
      then show ?thesis by (simp add: forecast_entry_def dt ymd mv m)
    next
      case t: (Some t)
      show ?thesis
      proof (cases "map_of m ''humidity''")
        case None
        then show ?thesis by (simp add: forecast_entry_def dt ymd mv m t)
      next
        case h: (Some h)
        show ?thesis
        proof (cases "map_of e ''wind''")
          case None
          then show ?thesis by (simp add: forecast_entry_def dt ymd mv m t h)
        next
          case wv: (Some wv)
          with assms(2) obtain w where w: "wv = PDict w"
            by (cases wv) (simp_all add: sound_where_present_def field_def)
          from assms(1) dt mv m t h wv w have "map_of w ''speed'' = None"
            by (simp add: lacks_field_def field_def field2_def)
          then show ?thesis by (simp add: forecast_entry_def dt ymd mv m t h wv w)
        qed
      qed
    qed
  qed
qed

text \<open>
  C4, as the code has it. For a response that is a JSON object: when \<open>list\<close> is absent,
  \<^verbatim>\<open>get_forecast\<close> raises \<^verbatim>\<open>KeyError\<close>. When \<open>list\<close> is an array and one of its first five
  entries lacks \<open>dt\<close>, \<open>main\<close>, \<open>main.temp\<close>, \<open>main.humidity\<close>, \<open>wind\<close> or \<open>wind.speed\<close>,
  \<^verbatim>\<open>get_forecast\<close> raises and returns no list; the exception is a \<^verbatim>\<open>KeyError\<close> when that
  entry is an object that is sound where present and the entries before it are converted
  without an exception.
\<close>

theorem get_forecast_malformed:
  assumes "send_request env self city = Inr (PDict d)"
  shows "(map_of d ''list'' = None \<longrightarrow>
            get_forecast env self city = Inl KeyError \<and> is_LookupError KeyError) \<and>
         (\<forall>xs i. map_of d ''list'' = Some (PList xs) \<and> i < length xs \<and> i < 5 \<and>
                 lacks_field (xs ! i) \<longrightarrow>
            (\<exists>err. get_forecast env self city = Inl err)) \<and>
         (\<forall>xs i e. map_of d ''list'' = Some (PList xs) \<and> i < length xs \<and> i < 5 \<and>
                 xs ! i = PDict e \<and> lacks_field (xs ! i) \<and> sound_where_present env (xs ! i) \<and>
                 (\<forall>j < i. \<exists>r. forecast_entry env (xs ! j) = Inr r) \<longrightarrow>
            get_forecast env self city = Inl KeyError)"
proof (intro conjI allI impI)
  assume "map_of d ''list'' = None"
  with assms show "get_forecast env self city = Inl KeyError"
    by (simp add: get_forecast_def)
next
  show "is_LookupError KeyError" by (simp add: is_LookupError_def)
next
  fix xs i
  assume a: "map_of d ''list'' = Some (PList xs) \<and> i < length xs \<and> i < 5 \<and> lacks_field (xs ! i)"
  then obtain e where e: "forecast_entry env (xs ! i) = Inl e"
    using forecast_entry_lacks_field by blast
  from a have "xs ! i \<in> set (take 5 xs)"
    by (metis in_set_conv_nth length_take min_less_iff_conj nth_take)
  from forecast_loop_some_failure[OF this e, of "[]"] get_forecast_of_list[OF assms] a
  show "\<exists>err. get_forecast env self city = Inl err" by simp
next
  fix xs i e
  assume a: "map_of d ''list'' = Some (PList xs) \<and> i < length xs \<and> i < 5 \<and>
      xs ! i = PDict e \<and> lacks_field (xs ! i) \<and> sound_where_present env (xs ! i) \<and>
      (\<forall>j < i. \<exists>r. forecast_entry env (xs ! j) = Inr r)"
  then have "lacks_field (PDict e)" and "sound_where_present env (PDict e)"
    by auto
  from forecast_entry_KeyError[OF this] a
  have k: "forecast_entry env (take 5 xs ! i) = Inl KeyError"
    by simp
  from a have i: "i < length (take 5 xs)" by simp
  from a have "\<forall>j < i. \<exists>r. forecast_entry env (take 5 xs ! j) = Inr r" by simp
  from forecast_loop_fails[OF i k this, of "[]"] get_forecast_of_list[OF assms] a
  show "get_forecast env self city = Inl KeyError" by simp
qed

lemma send_request_example:
  "send_request (example_platform (forecast_net xs)) self city
     = Inr (PDict [(''cod'', PStr ''200''), (''list'', PList xs)])"
  by (simp add: send_request_def example_platform_def forecast_net_def)

lemma pads_year_example: "pads_year (example_platform net) = False"
  by (simp add: example_platform_def)

lemma local_date_example:
  "local_date (example_platform net) 1700000000 = Inr (2023, 11, 14)"
  "local_date (example_platform net) 1700010800 = Inr (2023, 11, 15)"
  "local_date (example_platform net) 1700021600 = Inr (2023, 11, 15)"
  "local_date (example_platform net) 1700032400 = Inr (2023, 11, 15)"
  "local_date (example_platform net) 1700043200 = Inr (2023, 11, 15)"
  by (simp_all add: local_date_def local_time_def example_platform_def ord2ymd_def month_day_def
        DAYS_BEFORE_MONTH_def DAYS_IN_MONTH_def Let_def)

lemma forecast_entry_example:
  assumes "local_date (example_platform net) t = Inr ymd"
  shows "forecast_entry (example_platform net) (entry_at t) =
           Inr (PDict [(''date'', PStr (strftime_Ymd (example_platform net) ymd)),
                       (''temp'', PFloat 21.5), (''humidity'', PInt 60),
                       (''wind_speed'', PFloat 3.2)])"
  using assms by (simp add: forecast_entry_def entry_at_def)

theorem get_forecast_malformed_witness:
  "get_forecast
     (example_platform (forecast_net
        [entry_at 1700000000,
         PDict [(''dt'', PInt 1700010800), (''wind'', PDict [(''speed'', PFloat 3.2)])]]))
     example_client ''Odessa'' = Inl KeyError"
proof -
  let ?bad = "[(''dt'', PInt 1700010800), (''wind'', PDict [(''speed'', PFloat (3.2::rat))])]"
  let ?xs = "[entry_at 1700000000, PDict ?bad]"
  let ?env = "example_platform (forecast_net ?xs)"
  have "map_of [(''cod'', PStr ''200''), (''list'', PList ?xs)] ''list'' = Some (PList ?xs) \<and>
        (1::nat) < length ?xs \<and> (1::nat) < 5 \<and> ?xs ! 1 = PDict ?bad \<and> lacks_field (?xs ! 1) \<and>
        sound_where_present ?env (?xs ! 1) \<and>
        (\<forall>j < 1. \<exists>r. forecast_entry ?env (?xs ! j) = Inr r)"
    by (simp add: lacks_field_def sound_where_present_def field_def
          forecast_entry_example[OF local_date_example(1)] local_date_example(2))
  with get_forecast_malformed[OF send_request_example, of ?xs example_client "''Odessa''"]
  show ?thesis by blast
qed

theorem get_forecast_sixth_entry_counterexample:
  "lacks_field (PDict [] :: rat pyval) \<and>
   get_forecast
     (example_platform (forecast_net
        [entry_at 1700000000, entry_at 1700010800, entry_at 1700021600, entry_at 1700032400,
         entry_at 1700043200, PDict []]))
     example_client ''Odessa''
   = Inr [PDict [(''date'', PStr ''2023-11-14''), (''temp'', PFloat 21.5),
                 (''humidity'', PInt 60), (''wind_speed'', PFloat 3.2)],
          PDict [(''date'', PStr ''2023-11-15''), (''temp'', PFloat 21.5),
                 (''humidity'', PInt 60), (''wind_speed'', PFloat 3.2)],
          PDict [(''date'', PStr ''2023-11-15''), (''temp'', PFloat 21.5),
                 (''humidity'', PInt 60), (''wind_speed'', PFloat 3.2)],
          PDict [(''date'', PStr ''2023-11-15''), (''temp'', PFloat 21.5),
                 (''humidity'', PInt 60), (''wind_speed'', PFloat 3.2)],
          PDict [(''date'', PStr ''2023-11-15''), (''temp'', PFloat 21.5),
                 (''humidity'', PInt 60), (''wind_speed'', PFloat 3.2)]]"
  by (simp add: lacks_field_def field_def get_forecast_def send_request_example
        forecast_entry_example[OF local_date_example(1)]
        forecast_entry_example[OF local_date_example(2)]
        forecast_entry_example[OF local_date_example(3)]
        forecast_entry_example[OF local_date_example(4)]
        forecast_entry_example[OF local_date_example(5)]
        strftime_Ymd_def year_text_def pads_year_example digit_def)


section \<open>Calendar dates: lemmas\<close>

lemma days_before_month_table:
  assumes "1 \<le> m" "m \<le> 12"
  shows "days_before_month y m = DAYS_BEFORE_MONTH ! nat m + (if 2 < m \<and> is_leap y then 1 else 0)"
proof -
  from assms have "m = 1 \<or> m = 2 \<or> m = 3 \<or> m = 4 \<or> m = 5 \<or> m = 6 \<or> m = 7 \<or> m = 8 \<or> m = 9
      \<or> m = 10 \<or> m = 11 \<or> m = 12" by arith
  then show ?thesis
    by (elim disjE)
       (simp_all add: days_before_month_def days_in_month_def DAYS_BEFORE_MONTH_def upto.simps)
qed

lemma month_estimate:
  fixes n :: int
  assumes "0 \<le> n" "n < 366"
  shows "(n + 50) div 32 = 1 \<or> (n + 50) div 32 = 2 \<or> (n + 50) div 32 = 3 \<or> (n + 50) div 32 = 4
    \<or> (n + 50) div 32 = 5 \<or> (n + 50) div 32 = 6 \<or> (n + 50) div 32 = 7 \<or> (n + 50) div 32 = 8
    \<or> (n + 50) div 32 = 9 \<or> (n + 50) div 32 = 10 \<or> (n + 50) div 32 = 11 \<or> (n + 50) div 32 = 12"
proof -
  define k where "k = (n + 50) div 32"
  have "32 * k + (n + 50) mod 32 = n + 50" unfolding k_def by simp
  moreover have "0 \<le> (n + 50) mod 32" "(n + 50) mod 32 < 32" by simp_all
  ultimately have "1 \<le> k \<and> k \<le> 12" using assms by linarith
  then have "k = 1 \<or> k = 2 \<or> k = 3 \<or> k = 4 \<or> k = 5 \<or> k = 6 \<or> k = 7 \<or> k = 8 \<or> k = 9
      \<or> k = 10 \<or> k = 11 \<or> k = 12" by arith
  then show ?thesis unfolding k_def .
qed

lemma month_estimate_bounds:
  fixes n k :: int
  assumes "(n + 50) div 32 = k"
  shows "32 * k \<le> n + 50 \<and> n + 50 < 32 * k + 32"
proof -
  have "32 * ((n + 50) div 32) + (n + 50) mod 32 = n + 50" by simp
  moreover have "0 \<le> (n + 50) mod 32" "(n + 50) mod 32 < 32" by simp_all
  ultimately show ?thesis using assms by linarith
qed

lemma month_day_correct:
  assumes "0 \<le> n" "n < (if is_leap y then 366 else 365)"
  shows "1 \<le> fst (month_day (is_leap y) n) \<and> fst (month_day (is_leap y) n) \<le> 12 \<and>
         1 \<le> snd (month_day (is_leap y) n) \<and>
         snd (month_day (is_leap y) n) \<le> days_in_month y (fst (month_day (is_leap y) n)) \<and>
         days_before_month y (fst (month_day (is_leap y) n)) + snd (month_day (is_leap y) n) = n + 1"
proof -
  have n366: "n < 366" using assms by (simp split: if_splits)
  have nl: "\<not> is_leap y \<Longrightarrow> n < 365" using assms by simp
  note est = month_estimate[OF assms(1) n366]
  note b = month_estimate_bounds
  from est show ?thesis
  proof (elim disjE)
    assume k: "(n + 50) div 32 = 1"
    from b[OF k] assms(1) nl n366 show ?thesis
      by (cases "is_leap y")
         (simp_all add: month_day_def Let_def k days_before_month_table days_in_month_def
            DAYS_BEFORE_MONTH_def DAYS_IN_MONTH_def)
  next
    assume k: "(n + 50) div 32 = 2"
    from b[OF k] assms(1) nl n366 show ?thesis
      by (cases "is_leap y")
         (simp_all add: month_day_def Let_def k days_before_month_table days_in_month_def
            DAYS_BEFORE_MONTH_def DAYS_IN_MONTH_def)
  next
    assume k: "(n + 50) div 32 = 3"
    from b[OF k] assms(1) nl n366 show ?thesis
      by (cases "is_leap y")
         (simp_all add: month_day_def Let_def k days_before_month_table days_in_month_def
            DAYS_BEFORE_MONTH_def DAYS_IN_MONTH_def)
  next
    assume k: "(n + 50) div 32 = 4"
    from b[OF k] assms(1) nl n366 show ?thesis
      by (cases "is_leap y")
         (simp_all add: month_day_def Let_def k days_before_month_table days_in_month_def
            DAYS_BEFORE_MONTH_def DAYS_IN_MONTH_def)
  next
    assume k: "(n + 50) div 32 = 5"
    from b[OF k] assms(1) nl n366 show ?thesis
      by (cases "is_leap y")
         (simp_all add: month_day_def Let_def k days_before_month_table days_in_month_def
            DAYS_BEFORE_MONTH_def DAYS_IN_MONTH_def)
  next
    assume k: "(n + 50) div 32 = 6"
    from b[OF k] assms(1) nl n366 show ?thesis
      by (cases "is_leap y")
         (simp_all add: month_day_def Let_def k days_before_month_table days_in_month_def
            DAYS_BEFORE_MONTH_def DAYS_IN_MONTH_def)
  next
    assume k: "(n + 50) div 32 = 7"
    from b[OF k] assms(1) nl n366 show ?thesis
      by (cases "is_leap y")
         (simp_all add: month_day_def Let_def k days_before_month_table days_in_month_def
            DAYS_BEFORE_MONTH_def DAYS_IN_MONTH_def)
  next
    assume k: "(n + 50) div 32 = 8"
    from b[OF k] assms(1) nl n366 show ?thesis
      by (cases "is_leap y")
         (simp_all add: month_day_def Let_def k days_before_month_table days_in_month_def
            DAYS_BEFORE_MONTH_def DAYS_IN_MONTH_def)
  next
    assume k: "(n + 50) div 32 = 9"
    from b[OF k] assms(1) nl n366 show ?thesis
      by (cases "is_leap y")
         (simp_all add: month_day_def Let_def k days_before_month_table days_in_month_def
            DAYS_BEFORE_MONTH_def DAYS_IN_MONTH_def)
  next
    assume k: "(n + 50) div 32 = 10"
    from b[OF k] assms(1) nl n366 show ?thesis
      by (cases "is_leap y")
         (simp_all add: month_day_def Let_def k days_before_month_table days_in_month_def
            DAYS_BEFORE_MONTH_def DAYS_IN_MONTH_def)
  next
    assume k: "(n + 50) div 32 = 11"
    from b[OF k] assms(1) nl n366 show ?thesis
      by (cases "is_leap y")
         (simp_all add: month_day_def Let_def k days_before_month_table days_in_month_def
            DAYS_BEFORE_MONTH_def DAYS_IN_MONTH_def)
  next
    assume k: "(n + 50) div 32 = 12"
    from b[OF k] assms(1) nl n366 show ?thesis
      by (cases "is_leap y")
         (simp_all add: month_day_def Let_def k days_before_month_table days_in_month_def
            DAYS_BEFORE_MONTH_def DAYS_IN_MONTH_def)
  qed
qed

lemma div_decomp: "0 \<le> r \<Longrightarrow> r < k \<Longrightarrow> (k * q + r) div k = (q::int)"
  by (simp add: div_pos_pos_trivial)

lemma days_before_year_cycles:
  assumes "0 \<le> b" "b \<le> 3" "0 \<le> c" "c \<le> 24" "0 \<le> e" "e \<le> 3"
  shows "days_before_year (400 * a + 100 * b + 4 * c + e + 1)
           = 146097 * a + 36524 * b + 1461 * c + 365 * e"
proof -
  have d4: "(400 * a + 100 * b + 4 * c + e) div 4 = 100 * a + 25 * b + c"
    using div_decomp[of e 4 "100 * a + 25 * b + c"] assms by (simp add: algebra_simps)
  have d100: "(400 * a + 100 * b + 4 * c + e) div 100 = 4 * a + b"
    using div_decomp[of "4 * c + e" 100 "4 * a + b"] assms by (simp add: algebra_simps)
  have d400: "(400 * a + 100 * b + 4 * c + e) div 400 = a"
    using div_decomp[of "100 * b + 4 * c + e" 400 a] assms by (simp add: algebra_simps)
  show ?thesis
    unfolding days_before_year_def using d4 d100 d400 by simp
qed


lemma mod_decomp: "0 \<le> r \<Longrightarrow> r < k \<Longrightarrow> (k * q + r) mod k = (r::int)"
  by (simp add: mod_pos_pos_trivial)

lemma is_leap_cycles:
  assumes "0 \<le> b" "b \<le> 3" "0 \<le> c" "c \<le> 24" "0 \<le> e" "e \<le> 3"
  shows "is_leap (400 * a + 100 * b + 4 * c + e + 1) = (e = 3 \<and> (c \<noteq> 24 \<or> b = 3))"
proof (cases "e = 3")
  case False
  have "(400 * a + 100 * b + 4 * c + e + 1) mod 4 = e + 1"
    using mod_decomp[of "e + 1" 4 "100 * a + 25 * b + c"] assms False
    by (simp add: algebra_simps)
  with assms False show ?thesis by (simp add: is_leap_def)
next
  case e: True
  have m4: "(400 * a + 100 * b + 4 * c + e + 1) mod 4 = 0"
    using mod_decomp[of 0 4 "100 * a + 25 * b + c + 1"] e by (simp add: algebra_simps)
  show ?thesis
  proof (cases "c = 24")
    case False
    have "(400 * a + 100 * b + 4 * c + e + 1) mod 100 = 4 * c + 4"
      using mod_decomp[of "4 * c + 4" 100 "4 * a + b"] assms False e
      by (simp add: algebra_simps)
    with assms False e m4 show ?thesis by (simp add: is_leap_def)
  next
    case c: True
    have m100: "(400 * a + 100 * b + 4 * c + e + 1) mod 100 = 0"
      using mod_decomp[of 0 100 "4 * a + b + 1"] e c by (simp add: algebra_simps)
    show ?thesis
    proof (cases "b = 3")
      case False
      have "(400 * a + 100 * b + 4 * c + e + 1) mod 400 = 100 * b + 100"
        using mod_decomp[of "100 * b + 100" 400 a] assms False e c
        by (simp add: algebra_simps)
      with assms False e c m4 m100 show ?thesis by (simp add: is_leap_def)
    next
      case True
      have "(400 * a + 100 * b + 4 * c + e + 1) mod 400 = 0"
        using mod_decomp[of 0 400 "a + 1"] e c True by (simp add: algebra_simps)
      with True e c m4 m100 show ?thesis by (simp add: is_leap_def)
    qed
  qed
qed

lemma ord2ymd_correct: "valid_date (ord2ymd n) \<and> ymd2ord (ord2ymd n) = n"
proof -
  define n0 where "n0 = n - 1"
  define a where "a = n0 div 146097"
  define r400 where "r400 = n0 mod 146097"
  define b where "b = r400 div 36524"
  define r100 where "r100 = r400 mod 36524"
  define c where "c = r100 div 1461"
  define r4 where "r4 = r100 mod 1461"
  define e where "e = r4 div 365"
  define r where "r = r4 mod 365"
  define L where "L = (e = 3 \<and> (c \<noteq> 24 \<or> b = 3))"
  have d1: "n0 = 146097 * a + r400" "0 \<le> r400" "r400 < 146097"
    unfolding a_def r400_def by simp_all
  have d2: "r400 = 36524 * b + r100" "0 \<le> r100" "r100 < 36524"
    unfolding b_def r100_def by simp_all
  have d3: "r100 = 1461 * c + r4" "0 \<le> r4" "r4 < 1461"
    unfolding c_def r4_def by simp_all
  have d4: "r4 = 365 * e + r" "0 \<le> r" "r < 365"
    unfolding e_def r_def by simp_all
  have bb: "0 \<le> b" "b \<le> 4" using d1 d2 by linarith+
  have bc: "0 \<le> c" "c \<le> 24" using d2 d3 by linarith+
  have be: "0 \<le> e" "e \<le> 4" using d3 d4 by linarith+
  have n: "n = 146097 * a + 36524 * b + 1461 * c + 365 * e + r + 1"
    using d1(1) d2(1) d3(1) d4(1) n0_def by linarith
  have o: "ord2ymd n =
      (if e = 4 \<or> b = 4 then (400 * a + 100 * b + 4 * c + e, 12, 31)
       else (400 * a + 100 * b + 4 * c + e + 1, fst (month_day L r), snd (month_day L r)))"
    by (simp add: ord2ymd_def Let_def L_def r_def e_def r4_def c_def r100_def b_def r400_def
          a_def n0_def)
  show ?thesis
  proof (cases "b = 4")
    case True
    with d1 d2 have r100: "r100 = 0" by linarith
    with d3 bc have c0: "c = 0" and r40: "r4 = 0" by linarith+
    with d4 be have e0: "e = 0" and r0: "r = 0" by linarith+
    have y: "ord2ymd n = (400 * a + 100 * 3 + 4 * 24 + 3 + 1, 12, 31)"
      using o True c0 e0 by simp
    have dby: "days_before_year (400 * a + 100 * 3 + 4 * 24 + 3 + 1)
        = 146097 * a + 36524 * 3 + 1461 * 24 + 365 * 3"
      by (rule days_before_year_cycles) simp_all
    have lp: "is_leap (400 * a + 100 * 3 + 4 * 24 + 3 + 1)"
      using is_leap_cycles[of 3 24 3 a] by simp
    have dbm: "days_before_month (400 * a + 100 * 3 + 4 * 24 + 3 + 1) 12 = 335"
      using lp by (simp add: days_before_month_table DAYS_BEFORE_MONTH_def)
    show ?thesis
      unfolding y using dby dbm n True c0 e0 r0
      by (simp add: valid_date_def ymd2ord_def days_in_month_def)
  next
    case b4: False
    with bb have b3: "b \<le> 3" by linarith
    show ?thesis
    proof (cases "e = 4")
      case True
      with d3 d4 have r0: "r = 0" by linarith
      from True d2 d3 d4 r0 have "c \<le> 23" by linarith
      then have c24: "c \<noteq> 24" by simp
      have y: "ord2ymd n = (400 * a + 100 * b + 4 * c + 3 + 1, 12, 31)"
        using o True by simp
      have dby: "days_before_year (400 * a + 100 * b + 4 * c + 3 + 1)
          = 146097 * a + 36524 * b + 1461 * c + 365 * 3"
        using bb(1) b3 bc by (intro days_before_year_cycles) simp_all
      have lp: "is_leap (400 * a + 100 * b + 4 * c + 3 + 1)"
        using is_leap_cycles[of b c 3 a] bb(1) b3 bc c24 by simp
      have dbm: "days_before_month (400 * a + 100 * b + 4 * c + 3 + 1) 12 = 335"
        using lp by (simp add: days_before_month_table DAYS_BEFORE_MONTH_def)
      show ?thesis
        unfolding y using dby dbm n True r0
        by (simp add: valid_date_def ymd2ord_def days_in_month_def)
    next
      case e4: False
      with be have e3: "e \<le> 3" by linarith
      define y where "y = 400 * a + 100 * b + 4 * c + e + 1"
      have lp: "is_leap y = L"
        unfolding y_def L_def using is_leap_cycles[of b c e a] bb(1) b3 bc be(1) e3 by simp
      have dby: "days_before_year y = 146097 * a + 36524 * b + 1461 * c + 365 * e"
        unfolding y_def using bb(1) b3 bc be(1) e3 by (intro days_before_year_cycles)
      have "r < (if is_leap y then 366 else 365)" using d4(3) by simp
      from month_day_correct[OF d4(2) this]
      have md: "1 \<le> fst (month_day L r)" "fst (month_day L r) \<le> 12"
          "1 \<le> snd (month_day L r)"
          "snd (month_day L r) \<le> days_in_month y (fst (month_day L r))"
          "days_before_month y (fst (month_day L r)) + snd (month_day L r) = r + 1"
        unfolding lp by simp_all
      have yy: "ord2ymd n = (y, fst (month_day L r), snd (month_day L r))"
        using o b4 e4 y_def by simp
      show ?thesis
        unfolding yy using md dby n by (simp add: valid_date_def ymd2ord_def case_prod_beta)
    qed
  qed
qed

section \<open>Dates of the forecast: theorems\<close>

lemma is_digit_digit: "0 \<le> k \<Longrightarrow> k \<le> 9 \<Longrightarrow> is_digit (digit k) \<and> digit_value (digit k) = k"
proof -
  assume "0 \<le> k" "k \<le> 9"
  then have "k = 0 \<or> k = 1 \<or> k = 2 \<or> k = 3 \<or> k = 4 \<or> k = 5 \<or> k = 6 \<or> k = 7 \<or> k = 8 \<or> k = 9"
    by arith
  then show ?thesis
    by (elim disjE) (simp_all add: digit_def is_digit_def digit_value_def)
qed

lemma decimal_digits:
  fixes y :: int
  assumes "0 \<le> y" "y \<le> 9999"
  shows "0 \<le> y div 1000 \<and> y div 1000 \<le> 9 \<and> 0 \<le> y div 100 mod 10 \<and> y div 100 mod 10 \<le> 9 \<and>
         0 \<le> y div 10 mod 10 \<and> y div 10 mod 10 \<le> 9 \<and> 0 \<le> y mod 10 \<and> y mod 10 \<le> 9 \<and>
         1000 * (y div 1000) + 100 * (y div 100 mod 10) + 10 * (y div 10 mod 10) + y mod 10 = y"
proof -
  have a: "y = 10 * (y div 10) + y mod 10" by simp
  have b: "y div 10 = 10 * (y div 100) + y div 10 mod 10"
    using div_mult_mod_eq[of "y div 10" 10] by (simp add: zdiv_zmult2_eq[symmetric])
  have c: "y div 100 = 10 * (y div 1000) + y div 100 mod 10"
    using div_mult_mod_eq[of "y div 100" 10] by (simp add: zdiv_zmult2_eq[symmetric])
  have m: "0 \<le> y mod 10" "y mod 10 < 10" "0 \<le> y div 10 mod 10" "y div 10 mod 10 < 10"
    "0 \<le> y div 100 mod 10" "y div 100 mod 10 < 10"
    by simp_all
  from a b c m assms show ?thesis by linarith
qed

lemma two_digits:
  fixes m :: int
  assumes "0 \<le> m" "m \<le> 99"
  shows "0 \<le> m div 10 \<and> m div 10 \<le> 9 \<and> 0 \<le> m mod 10 \<and> m mod 10 \<le> 9 \<and>
         10 * (m div 10) + m mod 10 = m"
proof -
  have a: "m = 10 * (m div 10) + m mod 10" by simp
  have "0 \<le> m mod 10" "m mod 10 < 10" by simp_all
  with a assms show ?thesis by linarith
qed

lemma days_in_month_le: "days_in_month y m \<le> 31"
  by (simp add: days_in_month_def)

lemma is_digit_not_hyphen: "is_digit c \<Longrightarrow> c \<noteq> CHR ''-''"
  by (auto simp: is_digit_def)

lemma year_text_correct:
  fixes y :: int
  assumes "1 \<le> y" and "y \<le> 9999"
  shows "list_all is_digit (year_text env y) \<and> number (year_text env y) = y \<and>
         (pads_year env \<or> 1000 \<le> y \<longrightarrow> length (year_text env y) = 4)"
proof -
  from assms have y: "0 \<le> y" "y \<le> 9999" by simp_all
  note dy = decimal_digits[OF y]
  have 1: "is_digit (digit (y div 1000)) \<and> digit_value (digit (y div 1000)) = y div 1000"
    using dy by (intro is_digit_digit) simp_all
  have 2: "is_digit (digit (y div 100 mod 10)) \<and>
           digit_value (digit (y div 100 mod 10)) = y div 100 mod 10"
    using dy by (intro is_digit_digit) simp_all
  have 3: "is_digit (digit (y div 10 mod 10)) \<and>
           digit_value (digit (y div 10 mod 10)) = y div 10 mod 10"
    using dy by (intro is_digit_digit) simp_all
  have 4: "is_digit (digit (y mod 10)) \<and> digit_value (digit (y mod 10)) = y mod 10"
    using dy by (intro is_digit_digit) simp_all
  show ?thesis
  proof (cases "pads_year env \<or> 1000 \<le> y")
    case True
    then have "year_text env y =
        [digit (y div 1000), digit (y div 100 mod 10), digit (y div 10 mod 10), digit (y mod 10)]"
      by (simp add: year_text_def)
    with 1 2 3 4 dy show ?thesis by (simp add: number_def)
  next
    case False
    then have lt: "y < 1000" and np: "\<not> pads_year env" by simp_all
    from y(1) lt have k: "y div 1000 = 0" by simp
    show ?thesis
    proof (cases "100 \<le> y")
      case True
      have a: "y = 100 * (y div 100) + y mod 100" by simp
      have b: "0 \<le> y mod 100" "y mod 100 < 100" by simp_all
      from a b lt True have h: "1 \<le> y div 100" "y div 100 \<le> 9" by linarith+
      then have m: "y div 100 mod 10 = y div 100" by simp
      from dy k m have e: "100 * (y div 100) + 10 * (y div 10 mod 10) + y mod 10 = y" by simp
      from h have 5: "is_digit (digit (y div 100)) \<and> digit_value (digit (y div 100)) = y div 100"
        by (intro is_digit_digit) simp_all
      from np lt True have "year_text env y =
          [digit (y div 100), digit (y div 10 mod 10), digit (y mod 10)]"
        by (simp add: year_text_def)
      with 3 4 5 e np lt show ?thesis by (simp add: number_def)
    next
      case False
      then have lt100: "y < 100" by simp
      show ?thesis
      proof (cases "10 \<le> y")
        case True
        from y(1) lt100 have "0 \<le> y" "y \<le> 99" by simp_all
        note t = two_digits[OF this]
        have 6: "is_digit (digit (y div 10)) \<and> digit_value (digit (y div 10)) = y div 10"
          using t by (intro is_digit_digit) simp_all
        from np lt100 True have "year_text env y = [digit (y div 10), digit (y mod 10)]"
          by (simp add: year_text_def)
        with 4 6 t np lt show ?thesis by (simp add: number_def)
      next
        case False
        with y(1) have 7: "is_digit (digit y) \<and> digit_value (digit y) = y"
          by (intro is_digit_digit) simp_all
        from np False have "year_text env y = [digit y]"
          by (simp add: year_text_def)
        with 7 np lt show ?thesis by (simp add: number_def)
      qed
    qed
  qed
qed

lemma parse_date_text:
  assumes "\<forall>c \<in> set ys. c \<noteq> CHR ''-''" and "m1 \<noteq> CHR ''-''" and "m2 \<noteq> CHR ''-''"
  shows "parse_date (ys @ [CHR ''-'', m1, m2, CHR ''-'', d1, d2])
         = (number ys, number [m1, m2], number [d1, d2])"
proof -
  from assms(1) have t: "takeWhile (\<lambda>c. c \<noteq> CHR ''-'') (ys @ [CHR ''-'', m1, m2, CHR ''-'', d1, d2]) = ys"
    by (simp add: takeWhile_append2)
  from assms(1) have d: "dropWhile (\<lambda>c. c \<noteq> CHR ''-'') (ys @ [CHR ''-'', m1, m2, CHR ''-'', d1, d2])
        = [CHR ''-'', m1, m2, CHR ''-'', d1, d2]"
    by (simp add: dropWhile_append2)
  show ?thesis
    unfolding parse_date_def t d using assms(2,3) by (simp add: Let_def)
qed

lemma strftime_Ymd_correct:
  assumes "valid_date ymd" and "1 \<le> fst ymd" and "fst ymd \<le> 9999"
  shows "parse_date (strftime_Ymd env ymd) = ymd \<and>
         (pads_year env \<or> 1000 \<le> fst ymd \<longrightarrow> is_iso_date (strftime_Ymd env ymd))"
proof -
  obtain y m d where ymd: "ymd = (y, m, d)" by (cases ymd) auto
  from assms ymd have y: "1 \<le> y" "y \<le> 9999" by simp_all
  from assms(1) ymd have m: "0 \<le> m" "m \<le> 99" by (simp_all add: valid_date_def)
  from assms(1) ymd days_in_month_le[of y m] have d: "0 \<le> d" "d \<le> 99"
    by (simp_all add: valid_date_def)
  note yt = year_text_correct[OF y, of env] and dm = two_digits[OF m] and dd = two_digits[OF d]
  have 5: "is_digit (digit (m div 10)) \<and> digit_value (digit (m div 10)) = m div 10"
    using dm by (intro is_digit_digit) simp_all
  have 6: "is_digit (digit (m mod 10)) \<and> digit_value (digit (m mod 10)) = m mod 10"
    using dm by (intro is_digit_digit) simp_all
  have 7: "is_digit (digit (d div 10)) \<and> digit_value (digit (d div 10)) = d div 10"
    using dd by (intro is_digit_digit) simp_all
  have 8: "is_digit (digit (d mod 10)) \<and> digit_value (digit (d mod 10)) = d mod 10"
    using dd by (intro is_digit_digit) simp_all
  from yt have nh: "\<forall>c \<in> set (year_text env y). c \<noteq> CHR ''-''"
    using is_digit_not_hyphen by (auto simp: list_all_iff)
  from 5 6 have mh: "digit (m div 10) \<noteq> CHR ''-''" "digit (m mod 10) \<noteq> CHR ''-''"
    using is_digit_not_hyphen by blast+
  have "parse_date (strftime_Ymd env (y, m, d))
        = (number (year_text env y), number [digit (m div 10), digit (m mod 10)],
           number [digit (d div 10), digit (d mod 10)])"
    unfolding strftime_Ymd_def prod.case by (rule parse_date_text[OF nh mh])
  with yt 5 6 7 8 dm dd have p: "parse_date (strftime_Ymd env (y, m, d)) = (y, m, d)"
    by (simp add: number_def)
  have "is_iso_date (strftime_Ymd env (y, m, d))" if "pads_year env \<or> 1000 \<le> y"
  proof -
    from yt that obtain y1 y2 y3 y4 where ys: "year_text env y = [y1, y2, y3, y4]"
      by (auto simp: length_Suc_conv numeral_eq_Suc)
    with yt have "is_digit y1 \<and> is_digit y2 \<and> is_digit y3 \<and> is_digit y4" by simp
    with ys 5 6 7 8 show ?thesis
      by (simp add: strftime_Ymd_def is_iso_date_def)
  qed
  with p show ?thesis unfolding ymd by simp
qed

lemma local_time_result:
  assumes "local_time env u = Inr s"
  shows "s = u + utcoffset env u \<and> 1 \<le> fst (ord2ymd (s div 86400 + 719163)) \<and>
         fst (ord2ymd (s div 86400 + 719163)) \<le> 9999"
  using assms by (auto simp: local_time_def Let_def split: if_splits)

lemma local_date_result:
  assumes "local_date env t = Inr ymd"
  shows "valid_date ymd \<and> 1 \<le> fst ymd \<and> fst ymd \<le> 9999 \<and>
         ymd2ord ymd = (t + utcoffset env t) div 86400 + 719163"
proof -
  from assms obtain s where s: "local_time env t = Inr s"
    and ymd: "ymd = ord2ymd (s div 86400 + 719163)"
    by (auto simp: local_date_def Let_def split: if_splits sum.splits)
  from local_time_result[OF s] have x: "s = t + utcoffset env t"
    and y: "1 \<le> fst (ord2ymd (s div 86400 + 719163))" "fst (ord2ymd (s div 86400 + 719163)) \<le> 9999"
    by blast+
  from y ord2ymd_correct[of "s div 86400 + 719163"] show ?thesis
    unfolding ymd x by simp
qed

lemma local_date_day_contains:
  assumes "local_date env t = Inr ymd"
  shows "day_contains ymd (t + utcoffset env t)"
proof -
  define x where "x = t + utcoffset env t"
  from local_date_result[OF assms] have o: "ymd2ord ymd - 719163 = x div 86400"
    by (simp add: x_def)
  have "86400 * (x div 86400) + x mod 86400 = x" by simp
  moreover have "0 \<le> x mod 86400" "x mod 86400 < 86400" by simp_all
  ultimately show ?thesis
    unfolding day_contains_def o x_def[symmetric] by linarith
qed

lemma fromtimestamp_result:
  assumes "fromtimestamp env dt = Inr ymd"
  shows "valid_date ymd \<and> 1 \<le> fst ymd \<and> fst ymd \<le> 9999"
proof (cases dt)
  case (PInt t)
  with assms local_date_result[of env t ymd] show ?thesis by simp
next
  case (PBool b)
  with assms local_date_result[of env "if b then 1 else 0" ymd] show ?thesis by simp
next
  case (PFloat x)
  with assms obtain t where "local_date env t = Inr ymd"
    by (cases "seconds_of_float env x") simp_all
  with local_date_result[of env t ymd] show ?thesis by simp
qed (use assms in simp_all)

lemma forecast_loop_result:
  assumes "forecast_loop env result fs = Inr rs"
  shows "\<exists>rs'. rs = result @ rs' \<and> length rs' = length fs \<and>
           (\<forall>i < length fs. forecast_entry env (fs ! i) = Inr (rs' ! i))"
  using assms
proof (induction fs arbitrary: result)
  case Nil
  then show ?case by simp
next
  case (Cons f fs)
  then obtain r where r: "forecast_entry env f = Inr r"
    by (cases "forecast_entry env f") simp_all
  with Cons.prems have "forecast_loop env (result @ [r]) fs = Inr rs" by simp
  from Cons.IH[OF this] obtain rs' where
    rs': "rs = (result @ [r]) @ rs'" "length rs' = length fs"
      "\<forall>i < length fs. forecast_entry env (fs ! i) = Inr (rs' ! i)"
    by blast
  have "\<forall>i < length (f # fs). forecast_entry env ((f # fs) ! i) = Inr ((r # rs') ! i)"
    using r rs'(3) by (auto simp: nth_Cons split: nat.splits)
  with rs'(1,2) show ?case
    by (intro exI[of _ "r # rs'"]) simp
qed

lemma get_forecast_result:
  assumes "get_forecast env self city = Inr rs" and "i < length rs"
  shows "\<exists>d xs. send_request env self city = Inr (PDict d) \<and>
           map_of d ''list'' = Some (PList xs) \<and> i < length xs \<and>
           forecast_entry env (xs ! i) = Inr (rs ! i)"
proof -
  from assms(1) obtain data where data: "send_request env self city = Inr data"
    by (cases "send_request env self city") (simp_all add: get_forecast_def)
  from assms(1) data obtain lst where lst: "py_getitem data ''list'' = Inr lst"
    by (cases "py_getitem data ''list''") (simp_all add: get_forecast_def)
  then obtain d where d: "data = PDict d" "map_of d ''list'' = Some lst"
    using py_getitem_result by blast
  from assms(1) data lst obtain sl where sl: "py_slice5 lst = Inr sl"
    by (cases "py_slice5 lst") (simp_all add: get_forecast_def)
  from assms(1) data lst sl obtain fs where fs: "py_iter sl = Inr fs"
    and loop: "forecast_loop env [] fs = Inr rs"
    by (cases "py_iter sl") (simp_all add: get_forecast_def)
  from forecast_loop_result[OF loop] have len: "length rs = length fs"
    and conv: "\<forall>i < length fs. forecast_entry env (fs ! i) = Inr (rs ! i)"
    by auto
  show ?thesis
  proof (cases lst)
    case (PList xs)
    with sl fs have "fs = take 5 xs" by auto
    with len conv assms(2) have "i < length xs" "forecast_entry env (xs ! i) = Inr (rs ! i)"
      by auto
    with data d PList show ?thesis by blast
  next
    case (PStr s)
    with sl fs have f: "fs = map (\<lambda>c. PStr [c]) (take 5 s)" by auto
    from assms(2) len have "i < length fs" by simp
    with conv have "forecast_entry env (fs ! i) = Inr (rs ! i)" by blast
    moreover from f \<open>i < length fs\<close> have "fs ! i = PStr [take 5 s ! i]" by simp
    ultimately show ?thesis by (simp add: forecast_entry_def)
  qed (use sl in simp_all)
qed

text \<open>
  C6, as the code has it. Every entry that \<^verbatim>\<open>get_forecast\<close> returns is a dict with the
  keys \<open>date\<close>, \<open>temp\<close>, \<open>humidity\<close> and \<open>wind_speed\<close>. Its \<open>date\<close> is the string that
  \<^verbatim>\<open>strftime\<close> writes for the local date of the \<open>dt\<close> of the entry of \<open>list\<close> at the same
  place, and reads back as that date; it has the shape \<^verbatim>\<open>YYYY-MM-DD\<close> when the year is
  1000 or later, or the C library pads the year. The other three are the values
  \<open>main.temp\<close>, \<open>main.humidity\<close> and \<open>wind.speed\<close> of that entry, as the response has
  them, with no coercion.
\<close>

theorem get_forecast_entries:
  assumes "get_forecast env self city = Inr rs" and "i < length rs"
  shows "\<exists>d xs dt ymd s t h w.
           send_request env self city = Inr (PDict d) \<and>
           map_of d ''list'' = Some (PList xs) \<and> i < length xs \<and>
           rs ! i = PDict [(''date'', PStr s), (''temp'', t), (''humidity'', h),
                           (''wind_speed'', w)] \<and>
           field (xs ! i) ''dt'' = Some dt \<and> fromtimestamp env dt = Inr ymd \<and>
           s = strftime_Ymd env ymd \<and> parse_date s = ymd \<and>
           (pads_year env \<or> 1000 \<le> fst ymd \<longrightarrow> is_iso_date s) \<and>
           field2 (xs ! i) ''main'' ''temp'' = Some t \<and>
           field2 (xs ! i) ''main'' ''humidity'' = Some h \<and>
           field2 (xs ! i) ''wind'' ''speed'' = Some w"
proof -
  from get_forecast_result[OF assms] obtain d xs where
    dx: "send_request env self city = Inr (PDict d)" "map_of d ''list'' = Some (PList xs)"
      "i < length xs" "forecast_entry env (xs ! i) = Inr (rs ! i)"
    by blast
  from forecast_entry_result[OF dx(4)] obtain e dt ymd m t h w s where
    r: "xs ! i = PDict e" "map_of e ''dt'' = Some dt" "fromtimestamp env dt = Inr ymd"
      "map_of e ''main'' = Some (PDict m)" "map_of m ''temp'' = Some t"
      "map_of m ''humidity'' = Some h" "map_of e ''wind'' = Some (PDict w)"
      "map_of w ''speed'' = Some s"
      "rs ! i = PDict [(''date'', PStr (strftime_Ymd env ymd)), (''temp'', t),
                       (''humidity'', h), (''wind_speed'', s)]"
    by blast
  from fromtimestamp_result[OF r(3)] strftime_Ymd_correct[of ymd env]
  have c: "parse_date (strftime_Ymd env ymd) = ymd"
    "pads_year env \<or> 1000 \<le> fst ymd \<longrightarrow> is_iso_date (strftime_Ymd env ymd)"
    by simp_all
  from r have f: "field (xs ! i) ''dt'' = Some dt" "field2 (xs ! i) ''main'' ''temp'' = Some t"
    "field2 (xs ! i) ''main'' ''humidity'' = Some h" "field2 (xs ! i) ''wind'' ''speed'' = Some s"
    by (simp_all add: field2_def field_def)
  from dx(1,2,3) r(9) f(1) r(3) c f(2,3,4) show ?thesis by blast
qed

theorem get_forecast_entries_witness:
  "get_forecast (example_platform (forecast_net [entry_at 1700000000])) example_client ''Odessa''
     = Inr [PDict [(''date'', PStr ''2023-11-14''), (''temp'', PFloat 21.5),
                   (''humidity'', PInt 60), (''wind_speed'', PFloat 3.2)]] \<and>
   (\<exists>d xs dt ymd s t h w.
     send_request (example_platform (forecast_net [entry_at 1700000000])) example_client ''Odessa''
       = Inr (PDict d) \<and>
     map_of d ''list'' = Some (PList xs) \<and> 0 < length xs \<and>
     [PDict [(''date'', PStr ''2023-11-14''), (''temp'', PFloat 21.5), (''humidity'', PInt 60),
             (''wind_speed'', PFloat 3.2)]] ! 0
       = PDict [(''date'', PStr s), (''temp'', t), (''humidity'', h), (''wind_speed'', w)] \<and>
     field (xs ! 0) ''dt'' = Some dt \<and>
     fromtimestamp (example_platform (forecast_net [entry_at 1700000000])) dt = Inr ymd \<and>
     s = strftime_Ymd (example_platform (forecast_net [entry_at 1700000000])) ymd \<and>
     parse_date s = ymd \<and> is_iso_date s \<and>
     field2 (xs ! 0) ''main'' ''temp'' = Some t \<and>
     field2 (xs ! 0) ''main'' ''humidity'' = Some h \<and>
     field2 (xs ! 0) ''wind'' ''speed'' = Some w)"
proof -
  let ?env = "example_platform (forecast_net [entry_at 1700000000])"
  have g: "get_forecast ?env example_client ''Odessa''
        = Inr [PDict [(''date'', PStr ''2023-11-14''), (''temp'', PFloat 21.5),
                      (''humidity'', PInt 60), (''wind_speed'', PFloat 3.2)]]"
    by (simp add: get_forecast_def send_request_example
          forecast_entry_example[OF local_date_example(1)] strftime_Ymd_def year_text_def
          pads_year_example digit_def)
  from get_forecast_entries[OF g, of 0] obtain d xs dt ymd s t h w where
    r: "send_request ?env example_client ''Odessa'' = Inr (PDict d)"
      "map_of d ''list'' = Some (PList xs)" "0 < length xs"
      "[PDict [(''date'', PStr ''2023-11-14''), (''temp'', PFloat 21.5), (''humidity'', PInt 60),
               (''wind_speed'', PFloat 3.2)]] ! 0
         = PDict [(''date'', PStr s), (''temp'', t), (''humidity'', h), (''wind_speed'', w)]"
      "field (xs ! 0) ''dt'' = Some dt" "fromtimestamp ?env dt = Inr ymd"
      "s = strftime_Ymd ?env ymd" "parse_date s = ymd"
      "pads_year ?env \<or> 1000 \<le> fst ymd \<longrightarrow> is_iso_date s"
      "field2 (xs ! 0) ''main'' ''temp'' = Some t"
      "field2 (xs ! 0) ''main'' ''humidity'' = Some h"
      "field2 (xs ! 0) ''wind'' ''speed'' = Some w"
    by auto
  from r(1,2,5,6) have "ymd = (2023, 11, 14)"
    by (auto simp: send_request_example entry_at_def field_def local_date_example(1))
  with r(9) have "is_iso_date s" by simp
  with r(1-8,10-12) have "\<exists>d xs dt ymd s t h w.
     send_request ?env example_client ''Odessa'' = Inr (PDict d) \<and>
     map_of d ''list'' = Some (PList xs) \<and> 0 < length xs \<and>
     [PDict [(''date'', PStr ''2023-11-14''), (''temp'', PFloat 21.5), (''humidity'', PInt 60),
             (''wind_speed'', PFloat 3.2)]] ! 0
       = PDict [(''date'', PStr s), (''temp'', t), (''humidity'', h), (''wind_speed'', w)] \<and>
     field (xs ! 0) ''dt'' = Some dt \<and> fromtimestamp ?env dt = Inr ymd \<and>
     s = strftime_Ymd ?env ymd \<and> parse_date s = ymd \<and> is_iso_date s \<and>
     field2 (xs ! 0) ''main'' ''temp'' = Some t \<and>
     field2 (xs ! 0) ''main'' ''humidity'' = Some h \<and>
     field2 (xs ! 0) ''wind'' ''speed'' = Some w"
    by blast
  with g show ?thesis by (rule conjI)
qed

lemma local_date_early_example:
  "local_date (example_platform net) (- 30610224001) = Inr (999, 12, 31)"
  by (simp add: local_date_def local_time_def example_platform_def ord2ymd_def month_day_def
        DAYS_BEFORE_MONTH_def DAYS_IN_MONTH_def Let_def)

theorem get_forecast_uncoerced_counterexample:
  "get_forecast
     (example_platform (forecast_net
        [PDict [(''dt'', PInt 1700000000),
                (''main'', PDict [(''temp'', PInt 21), (''humidity'', PFloat 60.5)]),
                (''wind'', PDict [(''speed'', PInt 3)])]]))
     example_client ''Odessa''
   = Inr [PDict [(''date'', PStr ''2023-11-14''), (''temp'', PInt 21),
                 (''humidity'', PFloat 60.5), (''wind_speed'', PInt 3)]]
   \<and> \<not> is_float (PInt 21 :: rat pyval) \<and> \<not> is_int (PFloat 60.5 :: rat pyval)
   \<and> get_forecast (example_platform (forecast_net [entry_at (- 30610224001)]))
       example_client ''Odessa''
   = Inr [PDict [(''date'', PStr ''999-12-31''), (''temp'', PFloat 21.5),
                 (''humidity'', PInt 60), (''wind_speed'', PFloat 3.2)]]
   \<and> \<not> is_iso_date ''999-12-31''"
  by (simp add: get_forecast_def send_request_example forecast_entry_def entry_at_def
        local_date_example(1) local_date_early_example strftime_Ymd_def year_text_def
        pads_year_example digit_def is_float_def is_int_def is_iso_date_def)

text \<open>
  C7, as the code has it. For every entry that \<^verbatim>\<open>get_forecast\<close> returns and whose \<open>dt\<close>
  in the response is the integer \<open>t\<close>, the \<open>date\<close> of the entry is the string that
  \<^verbatim>\<open>strftime\<close> writes for a date of the calendar in the years 1..9999, and the day of
  that date holds the instant \<open>t\<close> in the local time zone, that is, the local seconds
  \<open>t + utcoffset t\<close>. The string has the shape \<^verbatim>\<open>YYYY-MM-DD\<close> when the year is 1000 or
  later, or the C library pads the year.
\<close>

theorem get_forecast_date:
  assumes "get_forecast env self city = Inr rs"
    and "send_request env self city = Inr (PDict d)"
    and "map_of d ''list'' = Some (PList xs)"
    and "i < length rs"
    and "field (xs ! i) ''dt'' = Some (PInt t)"
  shows "\<exists>s. field (rs ! i) ''date'' = Some (PStr s) \<and>
           s = strftime_Ymd env (parse_date s) \<and>
           valid_date (parse_date s) \<and>
           1 \<le> fst (parse_date s) \<and> fst (parse_date s) \<le> 9999 \<and>
           day_contains (parse_date s) (t + utcoffset env t) \<and>
           (pads_year env \<or> 1000 \<le> fst (parse_date s) \<longrightarrow> is_iso_date s)"
proof -
  from get_forecast_result[OF assms(1,4)] assms(2,3)
  have conv: "forecast_entry env (xs ! i) = Inr (rs ! i)" by auto
  from forecast_entry_result[OF conv] obtain e dt ymd m u h w s where
    r: "xs ! i = PDict e" "map_of e ''dt'' = Some dt" "fromtimestamp env dt = Inr ymd"
      "rs ! i = PDict [(''date'', PStr (strftime_Ymd env ymd)), (''temp'', u),
                       (''humidity'', h), (''wind_speed'', s)]"
    by blast
  from r(1,2) assms(5) have "dt = PInt t" by (simp add: field_def)
  with r(3) have ld: "local_date env t = Inr ymd" by simp
  note v = local_date_result[OF ld]
  from v strftime_Ymd_correct[of ymd env]
  have c: "parse_date (strftime_Ymd env ymd) = ymd"
    "pads_year env \<or> 1000 \<le> fst ymd \<longrightarrow> is_iso_date (strftime_Ymd env ymd)"
    by simp_all
  from r(4) have "field (rs ! i) ''date'' = Some (PStr (strftime_Ymd env ymd))"
    by (simp add: field_def)
  with c v local_date_day_contains[OF ld] show ?thesis
    by (intro exI[of _ "strftime_Ymd env ymd"]) simp
qed

theorem get_forecast_date_witness:
  "get_forecast (example_platform (forecast_net [entry_at 1700000000])) example_client ''Odessa''
     = Inr [PDict [(''date'', PStr ''2023-11-14''), (''temp'', PFloat 21.5),
                   (''humidity'', PInt 60), (''wind_speed'', PFloat 3.2)]] \<and>
   field ([entry_at 1700000000] ! 0) ''dt'' = Some (PInt 1700000000) \<and>
   (\<exists>s. field ([PDict [(''date'', PStr ''2023-11-14''), (''temp'', PFloat 21.5),
                       (''humidity'', PInt 60), (''wind_speed'', PFloat (3.2::rat))]] ! 0) ''date''
          = Some (PStr s) \<and>
        s = strftime_Ymd (example_platform (forecast_net [entry_at 1700000000])) (parse_date s) \<and>
        valid_date (parse_date s) \<and> 1 \<le> fst (parse_date s) \<and> fst (parse_date s) \<le> 9999 \<and>
        day_contains (parse_date s) 1700000000 \<and> is_iso_date s)"
proof -
  let ?env = "example_platform (forecast_net [entry_at 1700000000])"
  let ?rs = "[PDict [(''date'', PStr ''2023-11-14''), (''temp'', PFloat 21.5),
                     (''humidity'', PInt 60), (''wind_speed'', PFloat (3.2::rat))]]"
  have g: "get_forecast ?env example_client ''Odessa'' = Inr ?rs"
    by (simp add: get_forecast_def send_request_example
          forecast_entry_example[OF local_date_example(1)] strftime_Ymd_def year_text_def
          pads_year_example digit_def)
  have f: "field ([entry_at 1700000000] ! 0) ''dt'' = Some (PInt 1700000000)"
    by (simp add: entry_at_def field_def)
  have u: "utcoffset ?env 1700000000 = 0" by (simp add: example_platform_def)
  from get_forecast_date[OF g send_request_example _ _ f] obtain s where
    s: "field (?rs ! 0) ''date'' = Some (PStr s)" "s = strftime_Ymd ?env (parse_date s)"
      "valid_date (parse_date s)" "1 \<le> fst (parse_date s)" "fst (parse_date s) \<le> 9999"
      "day_contains (parse_date s) (1700000000 + utcoffset ?env 1700000000)"
      "pads_year ?env \<or> 1000 \<le> fst (parse_date s) \<longrightarrow> is_iso_date s"
    by auto
  from s(1) have "s = ''2023-11-14''" by (simp add: field_def)
  then have "is_iso_date s" by (simp add: is_iso_date_def is_digit_def)
  with s(1-6) u have "\<exists>s. field (?rs ! 0) ''date'' = Some (PStr s) \<and>
        s = strftime_Ymd ?env (parse_date s) \<and>
        valid_date (parse_date s) \<and> 1 \<le> fst (parse_date s) \<and> fst (parse_date s) \<le> 9999 \<and>
        day_contains (parse_date s) 1700000000 \<and> is_iso_date s"
    by auto
  with g f show ?thesis by blast
qed

lemma local_date_late_example:
  "local_date (example_platform net) 253402300800 = Inl ValueError"
  by (simp add: local_date_def local_time_def example_platform_def ord2ymd_def month_day_def
        DAYS_BEFORE_MONTH_def DAYS_IN_MONTH_def Let_def)

theorem get_forecast_date_counterexample:
  "get_forecast (example_platform (forecast_net [entry_at (- 30610224001)]))
     example_client ''Odessa''
   = Inr [PDict [(''date'', PStr ''999-12-31''), (''temp'', PFloat 21.5),
                 (''humidity'', PInt 60), (''wind_speed'', PFloat 3.2)]]
   \<and> \<not> is_iso_date ''999-12-31''
   \<and> get_forecast (example_platform (forecast_net [entry_at 253402300800]))
       example_client ''Odessa''
   = Inl ValueError"
  by (simp add: get_forecast_def send_request_example forecast_entry_def entry_at_def
        local_date_early_example local_date_late_example strftime_Ymd_def year_text_def
        pads_year_example digit_def is_iso_date_def)

section \<open>The request of the forecast client: theorems\<close>

lemma split_on_no_sep: "sep \<notin> set s \<Longrightarrow> split_on sep s = [s]"
  by (induction s) auto

lemma split_on_append:
  "sep \<notin> set a \<Longrightarrow> split_on sep (a @ sep # b) = a # split_on sep b"
  by (induction a) auto

lemma unquote_plus_plain:
  "CHR ''+'' \<notin> set s \<Longrightarrow> CHR ''%'' \<notin> set s \<Longrightarrow> unquote_plus s = s"
  by (induction s) auto

lemma url_query_append:
  assumes "CHR ''?'' \<notin> set u" and "CHR ''#'' \<notin> set u" and "CHR ''#'' \<notin> set q"
  shows "url_query (u @ CHR ''?'' # q) = q"
proof -
  have tw: "takeWhile (\<lambda>c. c \<noteq> CHR ''#'') (u @ CHR ''?'' # q) = u @ CHR ''?'' # q"
    using assms(2,3) by (auto simp: takeWhile_eq_all_conv)
  have dw: "dropWhile (\<lambda>c. c \<noteq> CHR ''?'') (u @ CHR ''?'' # q) = CHR ''?'' # q"
    using assms(1) by (subst dropWhile_append2) auto
  show ?thesis unfolding url_query_def tw dw by simp
qed

lemma url_query_none:
  assumes "CHR ''?'' \<notin> set u"
  shows "url_query u = []"
proof -
  have "\<forall>x \<in> set (takeWhile (\<lambda>c. c \<noteq> CHR ''#'') u). x \<noteq> CHR ''?''"
    using assms by (auto dest: set_takeWhileD)
  then have dn: "dropWhile (\<lambda>c. c \<noteq> CHR ''?'') (takeWhile (\<lambda>c. c \<noteq> CHR ''#'') u) = []"
    by (simp add: dropWhile_eq_Nil_conv)
  show ?thesis unfolding url_query_def dn by simp
qed

text \<open>
  Where the two requests do agree: when the city and the key hold none of the characters
  \<^verbatim>\<open>&\<close>, \<^verbatim>\<open>#\<close>, \<^verbatim>\<open>+\<close> and \<^verbatim>\<open>%\<close> (and the endpoint has no query or fragment of its own), the URL
  that \<^verbatim>\<open>_send_request\<close> writes asks for \<open>q\<close>, \<open>appid\<close> and \<open>units\<close> with the values that the
  parameter dict of \<^verbatim>\<open>_sending_request\<close> gives them.
\<close>

theorem send_request_plain_city:
  assumes "CHR ''&'' \<notin> set city" "CHR ''#'' \<notin> set city" "CHR ''+'' \<notin> set city"
    "CHR ''%'' \<notin> set city"
    and "CHR ''&'' \<notin> set (api_key self)" "CHR ''#'' \<notin> set (api_key self)"
    "CHR ''+'' \<notin> set (api_key self)" "CHR ''%'' \<notin> set (api_key self)"
    and "CHR ''?'' \<notin> set (url self)" "CHR ''#'' \<notin> set (url self)"
  shows "request_params (Get (send_request_url self city) [])
           = [(''q'', city), (''appid'', api_key self), (''units'', ''metric'')]
         \<and> set (request_params (Get (send_request_url self city) []))
           = set (request_params (Get (url self)
                   [(''appid'', api_key self), (''q'', city), (''units'', ''metric'')]))"
proof -
  let ?k = "api_key self"
  let ?q = "''q='' @ city @ ''&appid='' @ ?k @ ''&units=metric''"
  have u: "send_request_url self city = url self @ CHR ''?'' # ?q"
    by (simp add: send_request_url_def)
  have "CHR ''#'' \<notin> set ?q" using assms by simp
  from url_query_append[OF assms(9,10) this]
  have q: "url_query (send_request_url self city) = ?q" unfolding u .
  have n: "CHR ''&'' \<notin> set (''q='' @ city)" "CHR ''&'' \<notin> set (''appid='' @ ?k)"
    "CHR ''&'' \<notin> set ''units=metric''"
    using assms by simp_all
  have "split_on CHR ''&'' ?q
      = split_on CHR ''&''
          ((''q='' @ city) @ CHR ''&'' # ((''appid='' @ ?k) @ CHR ''&'' # ''units=metric''))"
    by simp
  also have "\<dots> = (''q='' @ city)
      # split_on CHR ''&'' ((''appid='' @ ?k) @ CHR ''&'' # ''units=metric'')"
    by (rule split_on_append[OF n(1)])
  also have "split_on CHR ''&'' ((''appid='' @ ?k) @ CHR ''&'' # ''units=metric'')
      = (''appid='' @ ?k) # split_on CHR ''&'' ''units=metric''"
    by (rule split_on_append[OF n(2)])
  also have "split_on CHR ''&'' ''units=metric'' = [''units=metric'']"
    by (rule split_on_no_sep[OF n(3)])
  finally have s: "split_on CHR ''&'' ?q = [''q='' @ city, ''appid='' @ ?k, ''units=metric'']" .
  have f: "filter (\<lambda>s. s \<noteq> []) [''q='' @ city, ''appid='' @ ?k, ''units=metric'']
      = [''q='' @ city, ''appid='' @ ?k, ''units=metric'']"
    by simp
  have p1: "parse_pair (''q='' @ city) = (''q'', city)"
    using assms by (simp add: parse_pair_def unquote_plus_plain)
  have p2: "parse_pair (''appid='' @ ?k) = (''appid'', ?k)"
    using assms by (simp add: parse_pair_def unquote_plus_plain)
  have p3: "parse_pair ''units=metric'' = (''units'', ''metric'')"
    by (simp add: parse_pair_def)
  have r1: "request_params (Get (send_request_url self city) [])
      = [(''q'', city), (''appid'', ?k), (''units'', ''metric'')]"
    by (simp only: request_params.simps q parse_qsl_def s f list.map append_Nil2 p1 p2 p3)
  have r2: "request_params (Get (url self)
      [(''appid'', ?k), (''q'', city), (''units'', ''metric'')])
      = [(''appid'', ?k), (''q'', city), (''units'', ''metric'')]"
    by (simp add: url_query_none[OF assms(9)] parse_qsl_def)
  show ?thesis unfolding r1 r2 by auto
qed

theorem send_request_plain_city_witness:
  "request_params (Get (send_request_url example_client ''Odessa'') [])
     = [(''q'', ''Odessa''), (''appid'', ''key''), (''units'', ''metric'')]"
proof -
  have "api_key example_client = ''key''"
    and "url example_client = ''https://api.openweathermap.org/data/2.5/forecast''"
    by (simp_all add: example_client_def WeatherForecast_init_def WeatherAPI_init_def)
  with send_request_plain_city[of "''Odessa''" example_client] show ?thesis
    by simp
qed

text \<open>
  C5 at the city \<^verbatim>\<open>Brighton & Hove\<close>. The URL that \<^verbatim>\<open>_send_request\<close> writes asks for the
  city \<^verbatim>\<open>Brighton \<close> and carries a further parameter named \<^verbatim>\<open> Hove\<close>; the parameter dict
  of \<^verbatim>\<open>_sending_request\<close> asks for the city \<^verbatim>\<open>Brighton & Hove\<close>.
\<close>

theorem send_request_unescaped_city:
  "request_params (Get (send_request_url example_client ''Brighton & Hove'') [])
     = [(''q'', ''Brighton ''), ('' Hove'', ''''), (''appid'', ''key''), (''units'', ''metric'')]
   \<and> request_params (Get (url example_client)
        [(''appid'', api_key example_client), (''q'', ''Brighton & Hove''), (''units'', ''metric'')])
     = [(''appid'', ''key''), (''q'', ''Brighton & Hove''), (''units'', ''metric'')]"
  by (simp add: send_request_url_def example_client_def WeatherForecast_init_def
        WeatherAPI_init_def url_query_def parse_qsl_def parse_pair_def)

section \<open>Instants that the forecast client converts\<close>

lemma days_before_month_bound:
  assumes "1 \<le> m" "m \<le> 12"
  shows "0 \<le> days_before_month y m \<and> days_before_month y m \<le> 335"
proof -
  from assms have "m = 1 \<or> m = 2 \<or> m = 3 \<or> m = 4 \<or> m = 5 \<or> m = 6 \<or> m = 7 \<or> m = 8 \<or> m = 9
      \<or> m = 10 \<or> m = 11 \<or> m = 12" by arith
  then show ?thesis
    by (elim disjE) (simp_all add: days_before_month_table DAYS_BEFORE_MONTH_def)
qed

lemma year_of_ordinal:
  assumes "719163 \<le> n" and "n \<le> 3652059"
  shows "1000 \<le> fst (ord2ymd n) \<and> fst (ord2ymd n) \<le> 9999"
proof -
  obtain y m d where ymd: "ord2ymd n = (y, m, d)" by (cases "ord2ymd n") auto
  from ord2ymd_correct[of n] ymd have v: "1 \<le> m" "m \<le> 12" "1 \<le> d" "d \<le> days_in_month y m"
    and o: "days_before_year y + days_before_month y m + d = n"
    by (simp_all add: valid_date_def ymd2ord_def)
  from days_before_month_bound[OF v(1,2), of y] have
    b: "0 \<le> days_before_month y m" "days_before_month y m \<le> 335" by simp_all
  from v(4) days_in_month_le[of y m] have d31: "d \<le> 31" by linarith
  define x where "x = y - 1"
  define q4 where "q4 = x div 4"
  define q100 where "q100 = x div 100"
  define q400 where "q400 = x div 400"
  have e4: "x = 4 * q4 + x mod 4" "0 \<le> x mod 4" "x mod 4 < 4"
    unfolding q4_def by simp_all
  have e100: "x = 100 * q100 + x mod 100" "0 \<le> x mod 100" "x mod 100 < 100"
    unfolding q100_def by simp_all
  have e400: "x = 400 * q400 + x mod 400" "0 \<le> x mod 400" "x mod 400 < 400"
    unfolding q400_def by simp_all
  have dby: "days_before_year y = 365 * x + q4 - q100 + q400"
    by (simp add: days_before_year_def x_def q4_def q100_def q400_def)
  have "1000 \<le> y"
  proof (rule ccontr)
    assume "\<not> 1000 \<le> y"
    then have "x \<le> 998" by (simp add: x_def)
    with e4 e100 e400 dby o b d31 assms(1) show False by linarith
  qed
  moreover have "y \<le> 9999"
  proof (rule ccontr)
    assume "\<not> y \<le> 9999"
    then have "9999 \<le> x" by (simp add: x_def)
    with e4 e100 e400 dby o b v(3) assms(2) show False by linarith
  qed
  ultimately show ?thesis by (simp add: ymd)
qed

lemma local_time_in_range:
  assumes "0 \<le> u + utcoffset env u" and "u + utcoffset env u < 253402300800"
  shows "local_time env u = Inr (u + utcoffset env u) \<and>
         1000 \<le> fst (ord2ymd ((u + utcoffset env u) div 86400 + 719163))"
proof -
  define x where "x = u + utcoffset env u"
  define n where "n = x div 86400 + 719163"
  have "86400 * (x div 86400) + x mod 86400 = x" by simp
  moreover have "0 \<le> x mod 86400" "x mod 86400 < 86400" by simp_all
  ultimately have "719163 \<le> n" "n \<le> 3652059"
    using assms unfolding n_def x_def[symmetric] by linarith+
  from year_of_ordinal[OF this] have "1000 \<le> fst (ord2ymd n)" "fst (ord2ymd n) \<le> 9999"
    by simp_all
  then show ?thesis
    by (simp add: local_time_def Let_def n_def x_def)
qed

text \<open>
  An entry that has every field, with \<open>dt\<close> an integer instant from 1970-01-04 to the
  end of 9999-12-29 UTC, in a time zone that is never more than a day off UTC, is
  converted by the loop body of \<^verbatim>\<open>get_forecast\<close>: the dict it appends has the date of the
  day that holds the instant, written in the shape \<^verbatim>\<open>YYYY-MM-DD\<close>, and the three values
  as the entry has them.
\<close>

theorem forecast_entry_converts:
  assumes "map_of e ''dt'' = Some (PInt t)"
    and "\<forall>u. - 86400 \<le> utcoffset env u \<and> utcoffset env u \<le> 86400"
    and "259200 \<le> t" and "t < 253402214400"
    and "map_of e ''main'' = Some (PDict m)" and "map_of m ''temp'' = Some u"
    and "map_of m ''humidity'' = Some h"
    and "map_of e ''wind'' = Some (PDict w)" and "map_of w ''speed'' = Some s"
  shows "\<exists>ymd. forecast_entry env (PDict e) =
                 Inr (PDict [(''date'', PStr (strftime_Ymd env ymd)), (''temp'', u),
                             (''humidity'', h), (''wind_speed'', s)]) \<and>
               valid_date ymd \<and> day_contains ymd (t + utcoffset env t) \<and>
               parse_date (strftime_Ymd env ymd) = ymd \<and> is_iso_date (strftime_Ymd env ymd)"
proof -
  define x where "x = t + utcoffset env t"
  define p where "p = t - 86400 + utcoffset env (t - 86400)"
  define tr where "tr = x - p - 86400"
  from assms(2) have o: "- 86400 \<le> utcoffset env t" "utcoffset env t \<le> 86400"
    "- 86400 \<le> utcoffset env (t - 86400)" "utcoffset env (t - 86400) \<le> 86400"
    "- 86400 \<le> utcoffset env (t + tr)" "utcoffset env (t + tr) \<le> 86400"
    by simp_all
  from o assms(3,4) have "0 \<le> t + utcoffset env t" "t + utcoffset env t < 253402300800"
    by linarith+
  from local_time_in_range[OF this] have lx: "local_time env t = Inr x"
    and y: "1000 \<le> fst (ord2ymd (x div 86400 + 719163))"
    by (simp_all add: x_def)
  from o assms(3,4) have "0 \<le> t - 86400 + utcoffset env (t - 86400)"
    "t - 86400 + utcoffset env (t - 86400) < 253402300800"
    by linarith+
  from local_time_in_range[OF this] have lp: "local_time env (t - 86400) = Inr p"
    by (simp add: p_def)
  have l3: "\<exists>q. local_time env (t + tr) = Inr q" if "tr < 0"
  proof -
    from o have "- 172800 \<le> tr" by (simp add: tr_def x_def p_def)
    with that o assms(3,4) have "0 \<le> t + tr + utcoffset env (t + tr)"
      "t + tr + utcoffset env (t + tr) < 253402300800"
      by linarith+
    from local_time_in_range[OF this] show ?thesis by blast
  qed
  from assms(3,4) have r: "\<not> (t < - (2 ^ 63) \<or> 2 ^ 63 \<le> t)" by simp
  have ld: "local_date env t = Inr (ord2ymd (x div 86400 + 719163))"
  proof (cases "tr < 0")
    case True
    from l3[OF True] obtain q where "local_time env (t + tr) = Inr q" by blast
    with True r lx lp show ?thesis
      by (simp add: local_date_def Let_def tr_def)
  next
    case False
    with r lx lp show ?thesis
      by (simp add: local_date_def Let_def tr_def)
  qed
  then have ft: "fromtimestamp env (PInt t) = Inr (ord2ymd (x div 86400 + 719163))" by simp
  from local_date_result[OF ld] y strftime_Ymd_correct[of "ord2ymd (x div 86400 + 719163)" env]
  have "valid_date (ord2ymd (x div 86400 + 719163))"
    "parse_date (strftime_Ymd env (ord2ymd (x div 86400 + 719163)))
       = ord2ymd (x div 86400 + 719163)"
    "is_iso_date (strftime_Ymd env (ord2ymd (x div 86400 + 719163)))"
    by simp_all
  with forecast_entry_well_formed[OF assms(1) ft assms(5,6,7,8,9)]
    local_date_day_contains[OF ld]
  show ?thesis by blast
qed

theorem forecast_entry_converts_witness:
  "\<exists>ymd. forecast_entry (example_platform (forecast_net [])) (entry_at 1700000000) =
           Inr (PDict [(''date'', PStr (strftime_Ymd (example_platform (forecast_net [])) ymd)),
                       (''temp'', PFloat 21.5), (''humidity'', PInt 60),
                       (''wind_speed'', PFloat 3.2)]) \<and>
         valid_date ymd \<and> day_contains ymd 1700000000 \<and>
         parse_date (strftime_Ymd (example_platform (forecast_net [])) ymd) = ymd \<and>
         is_iso_date (strftime_Ymd (example_platform (forecast_net [])) ymd)"
proof -
  let ?env = "example_platform (forecast_net [])"
  have u: "utcoffset ?env = (\<lambda>t. 0)" by (simp add: example_platform_def)
  from forecast_entry_converts[where env = ?env and t = 1700000000
      and e = "[(''dt'', PInt 1700000000),
                (''main'', PDict [(''temp'', PFloat 21.5), (''humidity'', PInt 60)]),
                (''wind'', PDict [(''speed'', PFloat 3.2)])]"
      and m = "[(''temp'', PFloat 21.5), (''humidity'', PInt 60)]"
      and w = "[(''speed'', PFloat 3.2)]"
      and u = "PFloat 21.5" and h = "PInt 60" and s = "PFloat 3.2"]
  show ?thesis
    unfolding entry_at_def u by simp
qed

end
